theory Spec2Isabelle
  imports Complex_Main
begin

section \<open>Shared Python conventions\<close>

text \<open>
  Python floats are rendered as exact reals: the properties below concern the control
  flow and the comparisons of the source, not rounding.  Exceptions are values of the
  type \<open>error\<close>; a function that can raise returns \<open>error + 'a\<close> with \<open>Inl\<close> for
  the exception.
\<close>

datatype error =
    ZeroDivisionError
  | KeyError
  | IndexError
  | OverflowError
  | ValueError string

text \<open>\<open>float('inf')\<close> is the only non-finite float the source writes down.\<close>

datatype pyfloat = Finite real | PosInf

text \<open>\<open>a < abs(x)\<close> for a finite \<open>a\<close> and a float \<open>x\<close> that may be infinite.\<close>

fun less_abs :: "real \<Rightarrow> pyfloat \<Rightarrow> bool" where
  "less_abs a PosInf = True"
| "less_abs a (Finite x) = (a < \<bar>x\<bar>)"

text \<open>A \<open>for\<close> loop whose body may raise: the first exception ends the loop.\<close>

fun for_loop :: "'i list \<Rightarrow> ('i \<Rightarrow> 's \<Rightarrow> error + 's) \<Rightarrow> 's \<Rightarrow> error + 's" where
  "for_loop [] body s = Inr s"
| "for_loop (x # xs) body s =
     (case body x s of Inl e \<Rightarrow> Inl e | Inr s' \<Rightarrow> for_loop xs body s')"

section \<open>core/execute\_day.py: the proximity classifier and the alert filter\<close>

text \<open>A stored zone, as \<open>extract_zones\<close> writes it and the zone store returns it.\<close>

record zone =
  symbol :: string
  fetch_date :: string
  timeframe :: string
  zone_type :: string
  zone_low :: real
  zone_high :: real
  impulse_strength :: string
  impulse_start_time :: string
  impulse_end_time :: string

text \<open>The two attributes of \<open>ExecuteDayMonitor\<close> that the classifier reads.\<close>

record monitor =
  near_threshold :: real
  far_threshold :: real

text \<open>\<open>config.Config.NEAR_ZONE_PERCENT\<close> and \<open>ExecuteDayMonitor.__init__\<close>.\<close>

definition NEAR_ZONE_PERCENT :: real where
  "NEAR_ZONE_PERCENT = 0.5"

definition ExecuteDayMonitor_init :: monitor where
  "ExecuteDayMonitor_init =
     \<lparr>near_threshold = NEAR_ZONE_PERCENT / 100, far_threshold = 1.5\<rparr>"

text \<open>
  The loop of \<open>_calculate_proximity\<close> (the leading underscore is dropped: it is not an
  Isabelle identifier).  The loop state is \<open>(closest_zone, min_distance_pct, status,
  reaction)\<close>; the result is the tuple \<open>(status, closest_zone, distance, reaction)\<close>.
  The division by \<open>zone_mid\<close> is a float division and raises on zero.
\<close>

fun proximity_loop ::
  "monitor \<Rightarrow> real \<Rightarrow> zone list \<Rightarrow> zone option \<times> pyfloat \<times> string \<times> string
     \<Rightarrow> error + (string \<times> zone option \<times> pyfloat \<times> string)" where
  "proximity_loop self ltp [] (closest_zone, min_distance_pct, status, reaction) =
     Inr (status, closest_zone, min_distance_pct, reaction)"
| "proximity_loop self ltp (z # zones) (closest_zone, min_distance_pct, status, reaction) =
     (let zone_mid = (zone_low z + zone_high z) / 2 in
      if zone_mid = 0 then Inl ZeroDivisionError
      else
        let distance_from_mid = ((ltp - zone_mid) / zone_mid) * 100 in
        if zone_low z \<le> ltp \<and> ltp \<le> zone_high z then
          Inr (if zone_type z = ''BULLISH'' then ''INSIDE_BULLISH'' else ''INSIDE_BEARISH'',
               Some z, Finite distance_from_mid, ''Holding'')
        else
          let abs_distance_pct = \<bar>distance_from_mid\<bar> in
          if less_abs abs_distance_pct min_distance_pct then
            proximity_loop self ltp zones
              (Some z, Finite distance_from_mid,
               if abs_distance_pct \<le> near_threshold self then ''NEAR''
               else if abs_distance_pct > far_threshold self then ''FAR''
               else ''NEAR'',
               if abs_distance_pct \<le> near_threshold self then ''First Touch''
               else if abs_distance_pct > far_threshold self then ''No Touch Yet''
               else ''No Touch Yet'')
          else
            proximity_loop self ltp zones (closest_zone, min_distance_pct, status, reaction))"

definition calculate_proximity ::
  "monitor \<Rightarrow> real \<Rightarrow> zone list \<Rightarrow> error + (string \<times> zone option \<times> pyfloat \<times> string)" where
  "calculate_proximity self ltp zones =
     (if zones = [] then Inr (''FAR'', None, Finite 100, ''No Touch Yet'')
      else proximity_loop self ltp zones (None, PosInf, ''FAR'', ''No Touch Yet''))"

text \<open>
  A monitoring record as \<open>get_monitoring_data\<close> builds it.  The keys \<open>symbol\<close> and
  \<open>fetch_date\<close> carry the prefix \<open>rec_\<close> here, the names being taken by the zone.
\<close>

record monitoring_record =
  rec_symbol :: string
  ltp :: real
  zones :: "zone list"
  status :: string
  closest_zone :: "zone option"
  distance_percent :: "real option"
  reaction :: string
  rec_fetch_date :: string
  execute_date :: string

text \<open>\<open>get_alerts\<close>: the loop appends to \<open>alerts\<close>, which starts empty.\<close>

fun get_alerts_loop ::
  "monitoring_record list \<Rightarrow> monitoring_record list \<Rightarrow> monitoring_record list" where
  "get_alerts_loop alerts [] = alerts"
| "get_alerts_loop alerts (data # rest) =
     (if status data \<in> set [''INSIDE_BULLISH'', ''INSIDE_BEARISH'', ''NEAR''] then
        if reaction data \<in> set [''First Touch'', ''Holding''] then
          get_alerts_loop (alerts @ [data]) rest
        else get_alerts_loop alerts rest
      else get_alerts_loop alerts rest)"

definition get_alerts :: "monitoring_record list \<Rightarrow> monitoring_record list" where
  "get_alerts monitoring_data = get_alerts_loop [] monitoring_data"

text \<open>Concrete zones and records used to evaluate the classifier and the filter.\<close>

definition mk_zone :: "string \<Rightarrow> real \<Rightarrow> real \<Rightarrow> zone" where
  "mk_zone ty lo hi =
     \<lparr>symbol = ''RELIANCE'', fetch_date = ''2026-01-28'', timeframe = ''15minute'',
      zone_type = ty, zone_low = lo, zone_high = hi, impulse_strength = ''HIGH'',
      impulse_start_time = ''2026-01-28 09:45:00'',
      impulse_end_time = ''2026-01-28 10:30:00''\<rparr>"

definition mk_record :: "string \<Rightarrow> string \<Rightarrow> string \<Rightarrow> monitoring_record" where
  "mk_record name st re =
     \<lparr>rec_symbol = name, ltp = 710, zones = [], status = st, closest_zone = None,
      distance_percent = None, reaction = re, rec_fetch_date = ''2026-01-28'',
      execute_date = ''2026-01-30''\<rparr>"

section \<open>core/zone\_detector.py: zone extraction\<close>

text \<open>
  A data frame is the list of its rows.  Row positions, window sizes and the two
  configured candle counts are naturals: the source takes them from \<open>range\<close> and from
  counts.  The timestamp of a candle is kept in its printed form.
\<close>

record candle =
  date :: string
  "open" :: real
  high :: real
  low :: real
  close :: real
  volume :: real

record detector =
  atr_multiplier :: real
  zone_candles_min :: nat
  zone_candles_max :: nat

text \<open>The defaults of \<open>ZoneDetector.__init__\<close>.\<close>

definition ZoneDetector_init :: detector where
  "ZoneDetector_init = \<lparr>atr_multiplier = 1.5, zone_candles_min = 2, zone_candles_max = 6\<rparr>"

record impulse =
  direction :: string
  start_idx :: nat
  end_idx :: nat
  strength :: string
  start_time :: string
  end_time :: string

text \<open>
  The dictionary returned by \<open>find_origin_zone\<close>; its keys \<open>zone_low\<close> and \<open>zone_high\<close>
  are called \<open>origin_low\<close> and \<open>origin_high\<close> here, the names being taken by the zone.
\<close>

record origin =
  origin_low :: real
  origin_high :: real
  candle_count :: nat

text \<open>
  pandas reductions: \<open>min\<close>, \<open>max\<close> and \<open>mean\<close> of an empty series are NaN, written
  \<open>None\<close>.  Every comparison with NaN is false; the callers below spell that out.
\<close>

fun series_min :: "real list \<Rightarrow> real option" where
  "series_min [] = None"
| "series_min (x # xs) = Some (fold min xs x)"

fun series_max :: "real list \<Rightarrow> real option" where
  "series_max [] = None"
| "series_max (x # xs) = Some (fold max xs x)"

definition series_mean :: "real list \<Rightarrow> real option" where
  "series_mean xs = (if xs = [] then None else Some (sum_list xs / real (length xs)))"

text \<open>
  Row access.  \<open>df.loc[i]\<close> (labels, which are positions after \<open>reset_index\<close>) raises
  \<open>KeyError\<close> and \<open>df.iloc[i]\<close> raises \<open>IndexError\<close> out of range; slices never raise:
  \<open>df.loc[i:j]\<close> includes both ends, \<open>df.iloc[a:b]\<close> excludes \<open>b\<close>, and both keep the
  rows that exist.
\<close>

definition loc :: "candle list \<Rightarrow> nat \<Rightarrow> error + candle" where
  "loc df i = (if i < length df then Inr (df ! i) else Inl KeyError)"

definition iloc :: "candle list \<Rightarrow> nat \<Rightarrow> error + candle" where
  "iloc df i = (if i < length df then Inr (df ! i) else Inl IndexError)"

definition iloc_last :: "candle list \<Rightarrow> error + candle" where
  "iloc_last df = (if df = [] then Inl IndexError else Inr (last df))"

definition loc_slice :: "candle list \<Rightarrow> nat \<Rightarrow> nat \<Rightarrow> candle list" where
  "loc_slice df i j = drop i (take (Suc j) df)"

definition iloc_slice :: "candle list \<Rightarrow> nat \<Rightarrow> nat \<Rightarrow> candle list" where
  "iloc_slice df a b = drop a (take b df)"

text \<open>
  \<open>calculate_atr\<close> with its default period 14, the only one the source uses.  The true
  range of the first row is \<open>high - low\<close> (the shifted close is NaN there and the row-wise
  \<open>max\<close> skips it).  The rolling mean at the last row is NaN below 14 rows, which selects
  the fallback; on an empty frame \<open>iloc[-1]\<close> raises.
\<close>

fun true_range :: "real option \<Rightarrow> candle list \<Rightarrow> real list" where
  "true_range prev_close [] = []"
| "true_range prev_close (c # cs) =
     (case prev_close of
        None \<Rightarrow> high c - low c
      | Some pc \<Rightarrow> max (high c - low c) (max \<bar>high c - pc\<bar> \<bar>low c - pc\<bar>))
     # true_range (Some (close c)) cs"

definition calculate_atr :: "candle list \<Rightarrow> error + real" where
  "calculate_atr df =
     (if df = [] then Inl IndexError
      else if 14 \<le> length df then
        Inr (sum_list (drop (length df - 14) (true_range None df)) / 14)
      else
        Inr (sum_list (map high df) / real (length df) - sum_list (map low df) / real (length df)))"

text \<open>
  The body of the two nested loops of \<open>find_major_impulse\<close> for one pair \<open>(i, j)\<close>; the
  loop state is \<open>(best_impulse, max_move)\<close>.
\<close>

definition impulse_body ::
  "detector \<Rightarrow> candle list \<Rightarrow> real \<Rightarrow> nat \<Rightarrow> nat \<Rightarrow> impulse option \<times> real
     \<Rightarrow> error + (impulse option \<times> real)" where
  "impulse_body self df atr i j st =
     (case loc df i of Inl e \<Rightarrow> Inl e | Inr ci \<Rightarrow>
     (case loc df j of Inl e \<Rightarrow> Inl e | Inr cj \<Rightarrow>
        let price_start = close ci;
            price_end = close cj;
            net_move = \<bar>price_end - price_start\<bar>;
            track = (\<lambda>direction.
              if net_move > snd st then
                (Some \<lparr>direction = direction, start_idx = i, end_idx = j,
                       strength = (if net_move > 2 * atr then ''HIGH'' else ''MEDIUM''),
                       start_time = date ci, end_time = date cj\<rparr>, net_move)
              else st)
        in
        if net_move < atr_multiplier self * atr then Inr st
        else if price_end > price_start then
          if (case series_min (map low (loc_slice df i j)) of
                None \<Rightarrow> False
              | Some lowest_in_range \<Rightarrow> price_start - lowest_in_range > net_move * 0.3)
          then Inr st
          else Inr (track ''BULLISH'')
        else
          if (case series_max (map high (loc_slice df i j)) of
                None \<Rightarrow> False
              | Some highest_in_range \<Rightarrow> highest_in_range - price_start > net_move * 0.3)
          then Inr st
          else Inr (track ''BEARISH'')))"

definition find_major_impulse :: "detector \<Rightarrow> candle list \<Rightarrow> real \<Rightarrow> error + impulse option" where
  "find_major_impulse self df atr =
     (case for_loop [0..<length df - 3]
             (\<lambda>i. for_loop [i + 3..<min (i + 20) (length df)] (impulse_body self df atr i))
             (None, 0) of
        Inl e \<Rightarrow> Inl e
      | Inr (best_impulse, max_move) \<Rightarrow> Inr best_impulse)"

text \<open>
  The loop of \<open>find_origin_zone\<close> over the remaining values of \<open>lookback\<close>; it returns
  from inside at the first window that passes both tests.
\<close>

fun origin_loop :: "candle list \<Rightarrow> nat \<Rightarrow> nat list \<Rightarrow> error + origin option" where
  "origin_loop df impulse_start_idx [] = Inr None"
| "origin_loop df impulse_start_idx (lookback # rest) =
     (let zone_start = impulse_start_idx - lookback;
          zone_end = impulse_start_idx;
          zone_candles = iloc_slice df zone_start zone_end
      in
      case (series_min (map low zone_candles), series_max (map high zone_candles),
            series_mean (map (\<lambda>c. high c - low c) zone_candles)) of
        (Some zone_lo, Some zone_hi, Some avg_candle_range) \<Rightarrow>
          let zone_range = zone_hi - zone_lo in
          if zone_range < avg_candle_range * 2.5 then
            (case iloc zone_candles 0 of Inl e \<Rightarrow> Inl e | Inr first \<Rightarrow>
            (case iloc_last zone_candles of Inl e \<Rightarrow> Inl e | Inr lst \<Rightarrow>
               let net_progress = \<bar>close lst - close first\<bar> in
               if net_progress < zone_range * 0.5 then
                 Inr (Some \<lparr>origin_low = zone_lo, origin_high = zone_hi,
                            candle_count = lookback\<rparr>)
               else origin_loop df impulse_start_idx rest))
          else origin_loop df impulse_start_idx rest
      | _ \<Rightarrow> origin_loop df impulse_start_idx rest)"

definition find_origin_zone :: "detector \<Rightarrow> candle list \<Rightarrow> nat \<Rightarrow> error + origin option" where
  "find_origin_zone self df impulse_start_idx =
     (if impulse_start_idx < zone_candles_min self then Inr None
      else origin_loop df impulse_start_idx
             [zone_candles_min self..<min (zone_candles_max self + 1) (impulse_start_idx + 1)])"

definition validate_zone :: "candle list \<Rightarrow> origin \<Rightarrow> impulse \<Rightarrow> error + bool" where
  "validate_zone df z imp =
     (let impulse_end_idx = end_idx imp in
      if impulse_end_idx \<ge> length df then Inr False
      else
        case iloc df impulse_end_idx of Inl e \<Rightarrow> Inl e | Inr row \<Rightarrow>
          let price_after_impulse = close row;
              zone_mid = (origin_low z + origin_high z) / 2;
              distance = \<bar>price_after_impulse - zone_mid\<bar>;
              zone_range = origin_high z - origin_low z
          in
          if distance < zone_range * 2 then Inr False else Inr True)"

definition extract_zones ::
  "detector \<Rightarrow> candle list \<Rightarrow> string \<Rightarrow> string \<Rightarrow> string \<Rightarrow> error + zone list" where
  "extract_zones self df name fetch_day tf =
     (if length df < 20 then Inr []
      else
        case calculate_atr df of Inl e \<Rightarrow> Inl e | Inr atr \<Rightarrow>
       (case find_major_impulse self df atr of
          Inl e \<Rightarrow> Inl e
        | Inr None \<Rightarrow> Inr []
        | Inr (Some imp) \<Rightarrow>
            (case find_origin_zone self df (start_idx imp) of
               Inl e \<Rightarrow> Inl e
             | Inr None \<Rightarrow> Inr []
             | Inr (Some origin_zone) \<Rightarrow>
                 (case validate_zone df origin_zone imp of
                    Inl e \<Rightarrow> Inl e
                  | Inr False \<Rightarrow> Inr []
                  | Inr True \<Rightarrow>
                      Inr ([] @
                        [\<lparr>symbol = name, fetch_date = fetch_day, timeframe = tf,
                          zone_type = direction imp,
                          zone_low = origin_low origin_zone,
                          zone_high = origin_high origin_zone,
                          impulse_strength = strength imp,
                          impulse_start_time = start_time imp,
                          impulse_end_time = end_time imp\<rparr>])))))"

text \<open>Concrete series used to evaluate the detector.\<close>

definition bar :: "string \<Rightarrow> real \<Rightarrow> real \<Rightarrow> real \<Rightarrow> candle" where
  "bar t h l c =
     \<lparr>date = ''2026-01-28 '' @ t, open = c, high = h, low = l, close = c, volume = 1000\<rparr>"

definition flat4 :: "candle list" where
  "flat4 = [bar ''09:15'' 100 100 100, bar ''09:30'' 100 100 100,
            bar ''09:45'' 100 100 100, bar ''10:00'' 100 100 100]"

definition rally5 :: "candle list" where
  "rally5 = [bar ''09:15'' 101 99 100, bar ''09:30'' 101 99 100, bar ''09:45'' 111 100 110,
             bar ''10:00'' 121 110 120, bar ''10:15'' 131 120 130]"

definition trend4 :: "candle list" where
  "trend4 = [bar ''09:15'' 101 99 100, bar ''09:30'' 111 109 110, bar ''09:45'' 121 119 120,
             bar ''10:00'' 131 129 130]"

definition day20 :: "candle list" where
  "day20 = [bar ''09:15'' 102 100 101, bar ''09:30'' 102 100 101, bar ''09:45'' 101 99 100,
            bar ''10:00'' 111 100 110, bar ''10:15'' 121 110 120, bar ''10:30'' 131 120 130,
            bar ''10:45'' 130 102 103, bar ''11:00'' 104 102 103, bar ''11:15'' 104 102 103,
            bar ''11:30'' 104 102 103, bar ''11:45'' 104 102 103, bar ''12:00'' 104 102 103,
            bar ''12:15'' 104 102 103, bar ''12:30'' 104 102 103, bar ''12:45'' 104 102 103,
            bar ''13:00'' 104 102 103, bar ''13:15'' 104 102 103, bar ''13:30'' 104 102 103,
            bar ''13:45'' 104 102 103, bar ''14:00'' 104 102 103]"

subsection \<open>The vocabulary of the claims about the detector\<close>

text \<open>
  The pairs \<open>(i, j)\<close> that the nested loops of \<open>find_major_impulse\<close> visit on a frame of
  \<open>n\<close> rows, in the order of the visit.
\<close>

definition scan_pairs :: "nat \<Rightarrow> (nat \<times> nat) list" where
  "scan_pairs n = concat (map (\<lambda>i. map (Pair i) [i + 3..<min (i + 20) n]) [0..<n - 3])"

text \<open>Scan order: ascending \<open>i\<close>, then ascending \<open>j\<close>.\<close>

definition scan_before :: "nat \<times> nat \<Rightarrow> nat \<times> nat \<Rightarrow> bool" where
  "scan_before p q \<longleftrightarrow> fst p < fst q \<or> (fst p = fst q \<and> snd p < snd q)"

text \<open>
  Net displacement and pullback of a pair, and what it means for a pair to survive both
  discards: its net displacement is not below \<open>atr_multiplier * atr\<close> and its pullback
  does not exceed 0.3 times its net displacement.
\<close>

definition net_move :: "candle list \<Rightarrow> nat \<Rightarrow> nat \<Rightarrow> real" where
  "net_move df i j = \<bar>close (df ! j) - close (df ! i)\<bar>"

definition pullback :: "candle list \<Rightarrow> nat \<Rightarrow> nat \<Rightarrow> real" where
  "pullback df i j =
     (if close (df ! j) > close (df ! i)
      then close (df ! i) - Min ((\<lambda>k. low (df ! k)) ` {i..j})
      else Max ((\<lambda>k. high (df ! k)) ` {i..j}) - close (df ! i))"

definition survives :: "detector \<Rightarrow> candle list \<Rightarrow> real \<Rightarrow> nat \<Rightarrow> nat \<Rightarrow> bool" where
  "survives self df atr i j \<longleftrightarrow>
     \<not> net_move df i j < atr_multiplier self * atr \<and> \<not> pullback df i j > 0.3 * net_move df i j"

text \<open>The impulse that the loop body records for a pair.\<close>

definition mk_impulse :: "candle list \<Rightarrow> real \<Rightarrow> nat \<Rightarrow> nat \<Rightarrow> impulse" where
  "mk_impulse df atr i j =
     \<lparr>direction = (if close (df ! j) > close (df ! i) then ''BULLISH'' else ''BEARISH''),
      start_idx = i, end_idx = j,
      strength = (if net_move df i j > 2 * atr then ''HIGH'' else ''MEDIUM''),
      start_time = date (df ! i), end_time = date (df ! j)\<rparr>"

text \<open>The loop body on rows that exist, as a function of the pair and the state.\<close>

definition impulse_step ::
  "detector \<Rightarrow> candle list \<Rightarrow> real \<Rightarrow> nat \<times> nat \<Rightarrow> impulse option \<times> real
     \<Rightarrow> impulse option \<times> real" where
  "impulse_step self df atr p st =
     (if survives self df atr (fst p) (snd p) \<and> net_move df (fst p) (snd p) > snd st
      then (Some (mk_impulse df atr (fst p) (snd p)), net_move df (fst p) (snd p)) else st)"

text \<open>
  The window of \<open>l\<close> candles that ends just before row \<open>s\<close>, its extremes, and the two
  tests of \<open>find_origin_zone\<close>: compression (the window's range is below 2.5 times the mean
  candle range in it) and balance (the closes of its first and last candle differ by less
  than half its range).  An empty window passes neither.
\<close>

definition window :: "candle list \<Rightarrow> nat \<Rightarrow> nat \<Rightarrow> candle list" where
  "window df s l = iloc_slice df (s - l) s"

definition win_low :: "candle list \<Rightarrow> real" where
  "win_low w = Min (low ` set w)"

definition win_high :: "candle list \<Rightarrow> real" where
  "win_high w = Max (high ` set w)"

definition compressed :: "candle list \<Rightarrow> bool" where
  "compressed w \<longleftrightarrow>
     win_high w - win_low w < 2.5 * (sum_list (map (\<lambda>c. high c - low c) w) / real (length w))"

definition balanced :: "candle list \<Rightarrow> bool" where
  "balanced w \<longleftrightarrow> \<bar>close (last w) - close (hd w)\<bar> < 0.5 * (win_high w - win_low w)"

definition qualifies :: "candle list \<Rightarrow> nat \<Rightarrow> nat \<Rightarrow> bool" where
  "qualifies df s l \<longleftrightarrow>
     window df s l \<noteq> [] \<and> compressed (window df s l) \<and> balanced (window df s l)"

definition origin_of :: "candle list \<Rightarrow> nat \<Rightarrow> nat \<Rightarrow> origin" where
  "origin_of df s l =
     \<lparr>origin_low = win_low (window df s l), origin_high = win_high (window df s l),
      candle_count = l\<rparr>"

section \<open>core/date\_manager.py: the trading calendar\<close>

text \<open>
  The part of Python's \<open>datetime\<close> that the calendar uses.  Every \<open>datetime\<close> of the
  source comes from \<open>strptime\<close> with a date-only format or from \<open>replace\<close> to midnight,
  and \<open>timedelta(days=1)\<close> keeps the time of day, so a value is its calendar date; years
  run from 1 (\<open>MINYEAR\<close>) to 9999.
\<close>

record datetime =
  year :: nat
  month :: nat
  day :: nat

definition is_leap :: "nat \<Rightarrow> bool" where
  "is_leap y \<longleftrightarrow> y mod 4 = 0 \<and> (y mod 100 \<noteq> 0 \<or> y mod 400 = 0)"

definition days_in_month :: "nat \<Rightarrow> nat \<Rightarrow> nat" where
  "days_in_month y m =
     (if m = 2 then (if is_leap y then 29 else 28)
      else if m \<in> {4, 6, 9, 11} then 30 else 31)"

definition days_before_year :: "nat \<Rightarrow> nat" where
  "days_before_year y = (y - 1) * 365 + (y - 1) div 4 - (y - 1) div 100 + (y - 1) div 400"

definition days_before_month :: "nat \<Rightarrow> nat \<Rightarrow> nat" where
  "days_before_month y m = sum_list (map (days_in_month y) [1..<m])"

text \<open>\<open>toordinal\<close>: 0001-01-01 is day 1, a Monday; \<open>weekday\<close> has Monday = 0.\<close>

definition toordinal :: "datetime \<Rightarrow> nat" where
  "toordinal d = days_before_year (year d) + days_before_month (year d) (month d) + day d"

definition weekday :: "datetime \<Rightarrow> nat" where
  "weekday d = (toordinal d + 6) mod 7"

text \<open>\<open>d - timedelta(days=1)\<close>; below 0001-01-01 it raises \<open>OverflowError\<close>.\<close>

definition minus_one_day :: "datetime \<Rightarrow> error + datetime" where
  "minus_one_day d =
     (if day d > 1 then Inr (d\<lparr>day := day d - 1\<rparr>)
      else if month d > 1 then
        Inr (d\<lparr>month := month d - 1, day := days_in_month (year d) (month d - 1)\<rparr>)
      else if year d > 1 then Inr \<lparr>year = year d - 1, month = 12, day = 31\<rparr>
      else Inl OverflowError)"

text \<open>The dates that \<open>datetime\<close> can hold.\<close>

definition valid_date :: "datetime \<Rightarrow> bool" where
  "valid_date d \<longleftrightarrow>
     1 \<le> year d \<and> year d \<le> 9999 \<and> 1 \<le> month d \<and> month d \<le> 12
     \<and> 1 \<le> day d \<and> day d \<le> days_in_month (year d) (month d)"


text \<open>
  \<open>strftime('%Y-%m-%d')\<close>, zero-padded as documented (four digits for the year, two for
  month and day).  Some C libraries leave a year below 1000 unpadded; from year 1000 on
  all agree.
\<close>

definition digit_char :: "nat \<Rightarrow> char" where
  "digit_char n = ''0123456789'' ! (n mod 10)"

definition strftime :: "datetime \<Rightarrow> string" where
  "strftime d =
     [digit_char (year d div 1000), digit_char (year d div 100), digit_char (year d div 10),
      digit_char (year d), CHR ''-'', digit_char (month d div 10), digit_char (month d),
      CHR ''-'', digit_char (day d div 10), digit_char (day d)]"

text \<open>
  \<open>strptime(s, '%Y-%m-%d')\<close>.  CPython matches the regular expression
  \<open>(\d\d\d\d)-(1[0-2]|0[1-9]|[1-9])-(3[01]|[12]\d|0[1-9]|[1-9]| [1-9])\<close> at the start of the
  string, rejects a remainder, and builds the date, which checks the year and the day of
  the month.  Every failure is a \<open>ValueError\<close>; the message texts follow CPython 3.11,
  with \<open>repr\<close> written as plain quotes.
\<close>

definition is_digit :: "char \<Rightarrow> bool" where
  "is_digit c \<longleftrightarrow> c \<in> set ''0123456789''"

definition digit_val :: "char \<Rightarrow> nat" where
  "digit_val c = length (takeWhile (\<lambda>x. x \<noteq> c) ''0123456789'')"

definition in_range :: "char \<Rightarrow> nat \<Rightarrow> nat \<Rightarrow> bool" where
  "in_range c lo hi \<longleftrightarrow> is_digit c \<and> lo \<le> digit_val c \<and> digit_val c \<le> hi"

fun match_Y :: "string \<Rightarrow> (nat \<times> string) option" where
  "match_Y (a # b # c # d # rest) =
     (if is_digit a \<and> is_digit b \<and> is_digit c \<and> is_digit d
      then Some (1000 * digit_val a + 100 * digit_val b + 10 * digit_val c + digit_val d, rest)
      else None)"
| "match_Y _ = None"

fun match_dash :: "string \<Rightarrow> string option" where
  "match_dash (c # rest) = (if c = CHR ''-'' then Some rest else None)"
| "match_dash [] = None"

fun match_m :: "string \<Rightarrow> (nat \<times> string) option" where
  "match_m (a # b # rest) =
     (if in_range a 1 1 \<and> in_range b 0 2 then Some (10 + digit_val b, rest)
      else if in_range a 0 0 \<and> in_range b 1 9 then Some (digit_val b, rest)
      else if in_range a 1 9 then Some (digit_val a, b # rest)
      else None)"
| "match_m [a] = (if in_range a 1 9 then Some (digit_val a, []) else None)"
| "match_m [] = None"

fun match_d :: "string \<Rightarrow> (nat \<times> string) option" where
  "match_d (a # b # rest) =
     (if in_range a 3 3 \<and> in_range b 0 1 then Some (30 + digit_val b, rest)
      else if in_range a 1 2 \<and> is_digit b then Some (10 * digit_val a + digit_val b, rest)
      else if in_range a 0 0 \<and> in_range b 1 9 then Some (digit_val b, rest)
      else if in_range a 1 9 then Some (digit_val a, b # rest)
      else if a = CHR '' '' \<and> in_range b 1 9 then Some (digit_val b, rest)
      else None)"
| "match_d [a] = (if in_range a 1 9 then Some (digit_val a, []) else None)"
| "match_d [] = None"

definition no_match :: "string \<Rightarrow> error" where
  "no_match s = ValueError (''time data '' @ [CHR 0x27] @ s @ [CHR 0x27]
                   @ '' does not match format '' @ [CHR 0x27] @ ''%Y-%m-%d'' @ [CHR 0x27])"

definition strptime :: "string \<Rightarrow> error + datetime" where
  "strptime s =
     (case match_Y s of None \<Rightarrow> Inl (no_match s) | Some (y, s1) \<Rightarrow>
     (case match_dash s1 of None \<Rightarrow> Inl (no_match s) | Some s2 \<Rightarrow>
     (case match_m s2 of None \<Rightarrow> Inl (no_match s) | Some (m, s3) \<Rightarrow>
     (case match_dash s3 of None \<Rightarrow> Inl (no_match s) | Some s4 \<Rightarrow>
     (case match_d s4 of None \<Rightarrow> Inl (no_match s) | Some (d, rest) \<Rightarrow>
        if rest \<noteq> [] then Inl (ValueError (''unconverted data remains: '' @ rest))
        else if y < 1 then Inl (ValueError ''year 0 is out of range'')
        else if d > days_in_month y m then Inl (ValueError ''day is out of range for month'')
        else Inr \<lparr>year = y, month = m, day = d\<rparr>)))))"

text \<open>The class attribute \<open>NSE_HOLIDAYS_2026\<close>.\<close>

definition NSE_HOLIDAYS_2026 :: "string list" where
  "NSE_HOLIDAYS_2026 =
     [''2026-01-26'', ''2026-03-03'', ''2026-03-30'', ''2026-04-02'', ''2026-04-03'',
      ''2026-04-14'', ''2026-05-01'', ''2026-08-15'', ''2026-08-19'', ''2026-10-02'',
      ''2026-10-20'', ''2026-11-04'', ''2026-11-05'', ''2026-11-25'', ''2026-12-25'']"

definition is_trading_day :: "datetime \<Rightarrow> bool" where
  "is_trading_day d =
     (if weekday d \<ge> 5 then False
      else if strftime d \<in> set NSE_HOLIDAYS_2026 then False
      else True)"

text \<open>
  The \<open>for _ in range(max_lookback)\<close> loop of \<open>get_previous_trading_day\<close>, by the number
  of rounds left: \<open>Some\<close> is the \<open>return\<close> from inside, \<open>None\<close> the exhausted loop.
\<close>

fun lookback_loop :: "nat \<Rightarrow> datetime \<Rightarrow> error + datetime option" where
  "lookback_loop 0 current = Inr None"
| "lookback_loop (Suc n) current =
     (if is_trading_day current then Inr (Some current)
      else case minus_one_day current of
             Inl e \<Rightarrow> Inl e
           | Inr current' \<Rightarrow> lookback_loop n current')"

definition get_previous_trading_day :: "datetime \<Rightarrow> error + datetime" where
  "get_previous_trading_day d =
     (case minus_one_day d of Inl e \<Rightarrow> Inl e | Inr current \<Rightarrow>
     (case lookback_loop 10 current of
        Inl e \<Rightarrow> Inl e
      | Inr (Some found) \<Rightarrow> Inr found
      | Inr None \<Rightarrow> minus_one_day d))"

text \<open>The \<open>while trading_days_back < 2\<close> loop of \<open>calculate_fetch_day\<close>.\<close>

function fetch_loop :: "datetime \<Rightarrow> nat \<Rightarrow> error + datetime" where
  "fetch_loop current trading_days_back =
     (if trading_days_back < 2 then
        case get_previous_trading_day current of
          Inl e \<Rightarrow> Inl e
        | Inr current' \<Rightarrow> fetch_loop current' (trading_days_back + 1)
      else Inr current)"
  by pat_completeness auto
termination
  by (relation "measure (\<lambda>(current, trading_days_back). 2 - trading_days_back)") auto

declare fetch_loop.simps [simp del]

definition calculate_fetch_day :: "string \<Rightarrow> error + string" where
  "calculate_fetch_day execute_day =
     (case strptime execute_day of Inl e \<Rightarrow> Inl e | Inr execute_dt \<Rightarrow>
     (case fetch_loop execute_dt 0 of Inl e \<Rightarrow> Inl e | Inr current \<Rightarrow>
        Inr (strftime current)))"



section \<open>Properties of the proximity classifier\<close>

lemma proximity_loop_outside:
  assumes "\<not> (zone_low y \<le> price \<and> price \<le> zone_high y)"
    and "zone_low y + zone_high y \<noteq> 0"
  shows "\<exists>st'. proximity_loop self price (y # rest) st = proximity_loop self price rest st'"
proof -
  obtain c m s r where st: "st = (c, m, s, r)" by (cases st) auto
  from assms(1) have out: "(zone_low y \<le> price \<and> price \<le> zone_high y) = False" by simp
  from assms(2) have mid: "((zone_low y + zone_high y) / 2 = 0) = False" by simp
  show ?thesis
    unfolding st proximity_loop.simps Let_def out mid if_False
    by (cases "less_abs \<bar>(price - (zone_low y + zone_high y) / 2) / ((zone_low y + zone_high y) / 2) * 100\<bar> m")
      (simp_all only: if_True if_False, blast+)
qed

lemma proximity_loop_skip:
  assumes "\<forall>y \<in> set pre. \<not> (zone_low y \<le> price \<and> price \<le> zone_high y)"
    and "\<forall>y \<in> set pre. zone_low y + zone_high y \<noteq> 0"
  shows "\<exists>st'. proximity_loop self price (pre @ rest) st = proximity_loop self price rest st'"
  using assms
proof (induction pre arbitrary: st)
  case Nil
  show ?case by (rule exI [of _ st]) simp
next
  case (Cons y pre)
  from Cons.prems have pre: "\<forall>y \<in> set pre. \<not> (zone_low y \<le> price \<and> price \<le> zone_high y)"
    "\<forall>y \<in> set pre. zone_low y + zone_high y \<noteq> 0" by auto
  from Cons.prems obtain st1 where
    "proximity_loop self price (y # (pre @ rest)) st = proximity_loop self price (pre @ rest) st1"
    using proximity_loop_outside [of y price self "pre @ rest" st] by auto
  moreover from Cons.IH [OF pre] obtain st2 where
    "proximity_loop self price (pre @ rest) st1 = proximity_loop self price rest st2" by blast
  ultimately show ?case by (intro exI [of _ st2]) simp
qed

text \<open>
  Claim C1, evaluated on the code: with the default configuration, a zone of midpoint 710
  that does not contain the price (708 to 712) and \<open>price = 706.5\<close>, so a distance of
  about -0.493 percent, gives status NEAR with reaction "No Touch Yet", not "First Touch":
  \<open>near_threshold\<close> is 0.5 / 100 = 0.005 while the distance it is compared with is a
  percentage.
\<close>

theorem C1_near_threshold_is_a_fraction:
  "calculate_proximity ExecuteDayMonitor_init 706.5 [mk_zone ''BULLISH'' 708 712]
     = Inr (''NEAR'', Some (mk_zone ''BULLISH'' 708 712), Finite (- (35 / 71)), ''No Touch Yet'')
   \<and> \<bar>(706.5 - 710) / 710 * 100 :: real\<bar> \<le> NEAR_ZONE_PERCENT
   \<and> near_threshold ExecuteDayMonitor_init = 0.005"
  by (simp add: calculate_proximity_def ExecuteDayMonitor_init_def NEAR_ZONE_PERCENT_def
      mk_zone_def Let_def)

text \<open>
  Claim C4, as stated, fails: a zone of midpoint zero met before (or as) the first
  containing zone makes the percentage computation raise \<open>ZeroDivisionError\<close>, and the
  classifier returns nothing.  Below, 710 lies inside the zone 700 to 720, but the list
  starts with a zone from 0 to 0, or from -5 to 5.
\<close>

theorem C4_zero_midpoint_counterexample:
  "zone_low (mk_zone ''BULLISH'' 700 720) \<le> 710 \<and> 710 \<le> zone_high (mk_zone ''BULLISH'' 700 720)
   \<and> calculate_proximity ExecuteDayMonitor_init 710
        [mk_zone ''BEARISH'' 0 0, mk_zone ''BULLISH'' 700 720] = Inl ZeroDivisionError
   \<and> calculate_proximity ExecuteDayMonitor_init 710
        [mk_zone ''BEARISH'' (- 5) 5, mk_zone ''BULLISH'' 700 720] = Inl ZeroDivisionError"
  by (simp add: calculate_proximity_def mk_zone_def Let_def)

text \<open>
  Claim C4, amended: if \<open>z\<close> is the first zone of the list that contains \<open>price\<close>, and
  neither \<open>z\<close> nor a zone before it has midpoint zero, the classifier returns on \<open>z\<close>:
  status INSIDE\_BULLISH when its type is BULLISH and INSIDE\_BEARISH otherwise, reaction
  "Holding", \<open>z\<close> as closest zone and the signed percentage distance of \<open>price\<close> from the
  midpoint of \<open>z\<close>, whatever zones follow.
\<close>

theorem C4_first_containing_zone_wins:
  assumes "\<forall>y \<in> set pre. \<not> (zone_low y \<le> price \<and> price \<le> zone_high y)"
    and "zone_low z \<le> price" and "price \<le> zone_high z"
    and "\<forall>y \<in> set (pre @ [z]). zone_low y + zone_high y \<noteq> 0"
  shows "calculate_proximity self price (pre @ z # post) =
     Inr (if zone_type z = ''BULLISH'' then ''INSIDE_BULLISH'' else ''INSIDE_BEARISH'',
          Some z,
          Finite ((price - (zone_low z + zone_high z) / 2) / ((zone_low z + zone_high z) / 2) * 100),
          ''Holding'')"
proof -
  from assms(4) have pre0: "\<forall>y \<in> set pre. zone_low y + zone_high y \<noteq> 0"
    and z0: "zone_low z + zone_high z \<noteq> 0" by auto
  obtain st' where
    "proximity_loop self price (pre @ z # post) (None, PosInf, ''FAR'', ''No Touch Yet'')
       = proximity_loop self price (z # post) st'"
    using proximity_loop_skip [OF assms(1) pre0] by blast
  moreover obtain c m s r where "st' = (c, m, s, r)" by (cases st') auto
  ultimately show ?thesis
    using assms(2,3) z0 by (simp add: calculate_proximity_def Let_def)
qed

theorem C4_first_containing_zone_wins_witness:
  "calculate_proximity ExecuteDayMonitor_init 710
     ([mk_zone ''BEARISH'' 730 740] @ mk_zone ''BULLISH'' 700 720 # [mk_zone ''BEARISH'' 709 711])
   = Inr (''INSIDE_BULLISH'', Some (mk_zone ''BULLISH'' 700 720), Finite 0, ''Holding'')"
  using C4_first_containing_zone_wins [of "[mk_zone ''BEARISH'' 730 740]" 710
      "mk_zone ''BULLISH'' 700 720" ExecuteDayMonitor_init "[mk_zone ''BEARISH'' 709 711]"]
  by (simp add: mk_zone_def)

section \<open>Properties of the alert filter\<close>

lemma get_alerts_loop_filter:
  "get_alerts_loop alerts ds =
     alerts @ filter (\<lambda>d. status d \<in> {''INSIDE_BULLISH'', ''INSIDE_BEARISH'', ''NEAR''}
                          \<and> reaction d \<in> {''First Touch'', ''Holding''}) ds"
  by (induction ds arbitrary: alerts) auto

text \<open>
  Claim C9: \<open>get_alerts\<close> keeps exactly the records whose status is INSIDE\_BULLISH,
  INSIDE\_BEARISH or NEAR and whose reaction is "First Touch" or "Holding", in their input
  order; so no record of status FAR and no record of reaction "No Touch Yet" is kept.
\<close>

theorem C9_get_alerts_filter:
  "get_alerts ds =
     filter (\<lambda>d. status d \<in> {''INSIDE_BULLISH'', ''INSIDE_BEARISH'', ''NEAR''}
                 \<and> reaction d \<in> {''First Touch'', ''Holding''}) ds
   \<and> (\<forall>d \<in> set ds. status d = ''FAR'' \<or> reaction d = ''No Touch Yet'' \<longrightarrow> d \<notin> set (get_alerts ds))"
  by (auto simp: get_alerts_def get_alerts_loop_filter)

theorem C9_get_alerts_filter_witness:
  "get_alerts [mk_record ''A'' ''NEAR'' ''First Touch'', mk_record ''B'' ''FAR'' ''Holding'',
               mk_record ''C'' ''NEAR'' ''No Touch Yet'', mk_record ''D'' ''INSIDE_BEARISH'' ''Holding'']
     = [mk_record ''A'' ''NEAR'' ''First Touch'', mk_record ''D'' ''INSIDE_BEARISH'' ''Holding'']"
  using C9_get_alerts_filter [of "[mk_record ''A'' ''NEAR'' ''First Touch'',
      mk_record ''B'' ''FAR'' ''Holding'', mk_record ''C'' ''NEAR'' ''No Touch Yet'',
      mk_record ''D'' ''INSIDE_BEARISH'' ''Holding'']"]
  by (simp add: mk_record_def)

section \<open>Properties of the zone detector\<close>



lemma for_loop_pure:
  assumes "\<And>x s. x \<in> set xs \<Longrightarrow> body x s = Inr (f x s)"
  shows "for_loop xs body s = Inr (fold f xs s)"
  using assms by (induction xs arbitrary: s) auto

lemma for_loop_append:
  "for_loop (xs @ ys) body s =
     (case for_loop xs body s of Inl e \<Rightarrow> Inl e | Inr s' \<Rightarrow> for_loop ys body s')"
  by (induction xs arbitrary: s) (auto split: sum.splits)

lemma for_loop_nested:
  "for_loop xs (\<lambda>x. for_loop (g x) (body x)) s =
     for_loop (concat (map (\<lambda>x. map (Pair x) (g x)) xs)) (\<lambda>(x, y). body x y) s"
proof (induction xs arbitrary: s)
  case Nil
  show ?case by simp
next
  case (Cons x xs)
  have inner: "for_loop (map (Pair x) ys) (\<lambda>(x, y). body x y) t = for_loop ys (body x) t" for ys t
    by (induction ys arbitrary: t) (auto split: sum.splits)
  show ?case
    by (simp add: for_loop_append inner Cons.IH split: sum.splits)
qed

lemma series_min_Min: "xs \<noteq> [] \<Longrightarrow> series_min xs = Some (Min (set xs))"
  by (cases xs) (simp_all add: Min.set_eq_fold [symmetric])

lemma series_max_Max: "xs \<noteq> [] \<Longrightarrow> series_max xs = Some (Max (set xs))"
  by (cases xs) (simp_all add: Max.set_eq_fold [symmetric])

lemma slice_nth: "b \<le> length xs \<Longrightarrow> drop a (take b xs) = map ((!) xs) [a..<b]"
  by (rule nth_equalityI) auto

lemma loc_slice_set:
  assumes "i \<le> j" "j < length df"
  shows "set (map f (loc_slice df i j)) = (\<lambda>k. f (df ! k)) ` {i..j}"
    and "map f (loc_slice df i j) \<noteq> []"
proof -
  from assms have "loc_slice df i j = map ((!) df) [i..<Suc j]"
    unfolding loc_slice_def by (intro slice_nth) simp
  then have "set (map f (loc_slice df i j)) = (\<lambda>k. f (df ! k)) ` set [i..<Suc j]"
    and "length (loc_slice df i j) = Suc j - i"
    by (simp_all only: set_map image_image length_map length_upt)
  with assms show "set (map f (loc_slice df i j)) = (\<lambda>k. f (df ! k)) ` {i..j}"
    and "map f (loc_slice df i j) \<noteq> []"
    by (simp only: set_upt atLeastLessThanSuc_atLeastAtMost, auto)
qed

lemma impulse_body_step:
  assumes "i \<le> j" "j < length df"
  shows "impulse_body self df atr i j st = Inr (impulse_step self df atr (i, j) st)"
proof -
  from assms have i: "i < length df" by simp
  note mn = series_min_Min [OF loc_slice_set(2) [OF assms, of low], unfolded loc_slice_set(1) [OF assms]]
  note mx = series_max_Max [OF loc_slice_set(2) [OF assms, of high], unfolded loc_slice_set(1) [OF assms]]
  show ?thesis
    using assms i
    by (simp add: impulse_body_def impulse_step_def loc_def Let_def mn mx survives_def
        pullback_def net_move_def mk_impulse_def mult.commute)
qed

lemma set_scan_pairs: "set (scan_pairs n) = {(i, j). i + 3 \<le> j \<and> j < i + 20 \<and> j < n}"
proof -
  have "(i, j) \<in> set (scan_pairs n) \<longleftrightarrow> i + 3 \<le> j \<and> j < i + 20 \<and> j < n" for i j
    unfolding scan_pairs_def by (simp add: image_iff) linarith
  then show ?thesis by auto
qed

lemma find_major_impulse_fold:
  "find_major_impulse self df atr =
     Inr (fst (fold (impulse_step self df atr) (scan_pairs (length df)) (None, 0)))"
proof -
  have "for_loop (scan_pairs (length df)) (\<lambda>(i, j). impulse_body self df atr i j) s
          = Inr (fold (impulse_step self df atr) (scan_pairs (length df)) s)" for s
    by (rule for_loop_pure) (auto simp: set_scan_pairs impulse_body_step)
  then show ?thesis
    by (simp add: find_major_impulse_def for_loop_nested scan_pairs_def [symmetric] split: prod.splits)
qed



lemma fold_best:
  fixes v :: "'p \<Rightarrow> real"
  assumes step: "\<And>p st. step p st = (if ok p \<and> v p > snd st then (Some (g p), v p) else st)"
  shows "(\<not> (\<exists>p \<in> set ps. ok p \<and> v p > m) \<and> fold step ps (b, m) = (b, m)) \<or>
         (\<exists>k < length ps. ok (ps ! k) \<and> v (ps ! k) > m
            \<and> fold step ps (b, m) = (Some (g (ps ! k)), v (ps ! k))
            \<and> (\<forall>k' < length ps. ok (ps ! k') \<longrightarrow> v (ps ! k') \<le> v (ps ! k))
            \<and> (\<forall>k' < k. ok (ps ! k') \<longrightarrow> v (ps ! k') < v (ps ! k)))"
proof (induction ps arbitrary: b m)
  case Nil
  show ?case by simp
next
  case (Cons p ps)
  show ?case
  proof (cases "ok p \<and> v p > m")
    case True
    then have st: "fold step (p # ps) (b, m) = fold step ps (Some (g p), v p)"
      by (simp add: step)
    from Cons.IH [of "v p" "Some (g p)"] show ?thesis
    proof (elim disjE conjE exE)
      assume none: "\<not> (\<exists>q \<in> set ps. ok q \<and> v p < v q)"
        and eq: "fold step ps (Some (g p), v p) = (Some (g p), v p)"
      have "\<forall>k' < length (p # ps). ok ((p # ps) ! k') \<longrightarrow> v ((p # ps) ! k') \<le> v p"
      proof (intro allI impI)
        fix k' assume "k' < length (p # ps)" "ok ((p # ps) ! k')"
        then show "v ((p # ps) ! k') \<le> v p"
          using none by (cases k') (auto simp: not_less)
      qed
      with True st eq have "0 < length (p # ps) \<and> ok ((p # ps) ! 0) \<and> v ((p # ps) ! 0) > m
            \<and> fold step (p # ps) (b, m) = (Some (g ((p # ps) ! 0)), v ((p # ps) ! 0))
            \<and> (\<forall>k' < length (p # ps). ok ((p # ps) ! k') \<longrightarrow> v ((p # ps) ! k') \<le> v ((p # ps) ! 0))
            \<and> (\<forall>k' < 0. ok ((p # ps) ! k') \<longrightarrow> v ((p # ps) ! k') < v ((p # ps) ! 0))"
        by simp
      then show ?thesis by blast
    next
      fix k
      assume k: "k < length ps" "ok (ps ! k)" "v p < v (ps ! k)"
        and eq: "fold step ps (Some (g p), v p) = (Some (g (ps ! k)), v (ps ! k))"
        and le: "\<forall>k' < length ps. ok (ps ! k') \<longrightarrow> v (ps ! k') \<le> v (ps ! k)"
        and lt: "\<forall>k' < k. ok (ps ! k') \<longrightarrow> v (ps ! k') < v (ps ! k)"
      have le': "\<forall>k' < length (p # ps). ok ((p # ps) ! k') \<longrightarrow> v ((p # ps) ! k') \<le> v ((p # ps) ! Suc k)"
      proof (intro allI impI)
        fix k' assume "k' < length (p # ps)" "ok ((p # ps) ! k')"
        then show "v ((p # ps) ! k') \<le> v ((p # ps) ! Suc k)"
          using le k by (cases k') auto
      qed
      have lt': "\<forall>k' < Suc k. ok ((p # ps) ! k') \<longrightarrow> v ((p # ps) ! k') < v ((p # ps) ! Suc k)"
      proof (intro allI impI)
        fix k' assume "k' < Suc k" "ok ((p # ps) ! k')"
        then show "v ((p # ps) ! k') < v ((p # ps) ! Suc k)"
          using lt k by (cases k') auto
      qed
      from True k st eq have "Suc k < length (p # ps) \<and> ok ((p # ps) ! Suc k) \<and> v ((p # ps) ! Suc k) > m
            \<and> fold step (p # ps) (b, m) = (Some (g ((p # ps) ! Suc k)), v ((p # ps) ! Suc k))"
        by simp
      with le' lt' show ?thesis by blast
    qed
  next
    case False
    then have st: "fold step (p # ps) (b, m) = fold step ps (b, m)"
      by (auto simp add: step)
    from Cons.IH [of m b] show ?thesis
    proof (elim disjE conjE exE)
      assume "\<not> (\<exists>q \<in> set ps. ok q \<and> m < v q)" and "fold step ps (b, m) = (b, m)"
      with False st show ?thesis by auto
    next
      fix k
      assume k: "k < length ps" "ok (ps ! k)" "m < v (ps ! k)"
        and eq: "fold step ps (b, m) = (Some (g (ps ! k)), v (ps ! k))"
        and le: "\<forall>k' < length ps. ok (ps ! k') \<longrightarrow> v (ps ! k') \<le> v (ps ! k)"
        and lt: "\<forall>k' < k. ok (ps ! k') \<longrightarrow> v (ps ! k') < v (ps ! k)"
      have le': "\<forall>k' < length (p # ps). ok ((p # ps) ! k') \<longrightarrow> v ((p # ps) ! k') \<le> v ((p # ps) ! Suc k)"
      proof (intro allI impI)
        fix k' assume "k' < length (p # ps)" "ok ((p # ps) ! k')"
        then show "v ((p # ps) ! k') \<le> v ((p # ps) ! Suc k)"
          using le k False by (cases k') auto
      qed
      have lt': "\<forall>k' < Suc k. ok ((p # ps) ! k') \<longrightarrow> v ((p # ps) ! k') < v ((p # ps) ! Suc k)"
      proof (intro allI impI)
        fix k' assume "k' < Suc k" "ok ((p # ps) ! k')"
        then show "v ((p # ps) ! k') < v ((p # ps) ! Suc k)"
          using lt k False by (cases k') auto
      qed
      from k st eq have "Suc k < length (p # ps) \<and> ok ((p # ps) ! Suc k) \<and> v ((p # ps) ! Suc k) > m
            \<and> fold step (p # ps) (b, m) = (Some (g ((p # ps) ! Suc k)), v ((p # ps) ! Suc k))"
        by simp
      with le' lt' show ?thesis by blast
    qed
  qed
qed

lemma sorted_nested:
  assumes "sorted_wrt (<) xs"
  shows "sorted_wrt scan_before (concat (map (\<lambda>i. map (Pair i) [lo i..<hi i]) xs))"
  using assms
proof (induction xs)
  case Nil
  show ?case by simp
next
  case (Cons x xs)
  have "sorted_wrt scan_before (map (Pair x) [lo x..<hi x])"
    by (simp add: sorted_wrt_map scan_before_def sorted_wrt_iff_nth_less)
  moreover from Cons have "sorted_wrt scan_before (concat (map (\<lambda>i. map (Pair i) [lo i..<hi i]) xs))"
    by simp
  moreover from Cons.prems have "\<forall>p \<in> set (map (Pair x) [lo x..<hi x]).
      \<forall>q \<in> set (concat (map (\<lambda>i. map (Pair i) [lo i..<hi i]) xs)). scan_before p q"
    by (auto simp: scan_before_def)
  ultimately show ?case
    by (simp only: list.map concat.simps sorted_wrt_append)
qed

lemma scan_pairs_sorted: "sorted_wrt scan_before (scan_pairs n)"
  unfolding scan_pairs_def by (rule sorted_nested) (simp add: sorted_wrt_iff_nth_less)

lemma scan_before_index:
  assumes "k < length (scan_pairs n)" "q \<in> set (scan_pairs n)"
    and "scan_before q (scan_pairs n ! k)"
  shows "\<exists>k' < k. scan_pairs n ! k' = q"
proof -
  from assms(2) obtain k' where k': "k' < length (scan_pairs n)" "scan_pairs n ! k' = q"
    by (auto simp: in_set_conv_nth)
  have "k' < k"
  proof (rule ccontr)
    assume "\<not> k' < k"
    then consider "k' = k" | "k < k'" by linarith
    then show False
    proof cases
      case 1
      with k' assms(3) show False by (simp add: scan_before_def)
    next
      case 2
      with k' have "scan_before (scan_pairs n ! k) q"
        using sorted_wrt_nth_less [OF scan_pairs_sorted, of k k' n] by simp
      with assms(3) show False by (auto simp: scan_before_def)
    qed
  qed
  with k' show ?thesis by blast
qed

lemma find_major_impulse_cases:
  "(find_major_impulse self df atr = Inr None
      \<and> \<not> (\<exists>i j. i + 3 \<le> j \<and> j < i + 20 \<and> j < length df
                 \<and> survives self df atr i j \<and> net_move df i j > 0))
   \<or> (\<exists>i j. i + 3 \<le> j \<and> j < i + 20 \<and> j < length df
         \<and> survives self df atr i j \<and> net_move df i j > 0
         \<and> find_major_impulse self df atr = Inr (Some (mk_impulse df atr i j))
         \<and> (\<forall>i' j'. i' + 3 \<le> j' \<and> j' < i' + 20 \<and> j' < length df \<and> survives self df atr i' j'
               \<longrightarrow> net_move df i' j' \<le> net_move df i j
                 \<and> (i' < i \<or> (i' = i \<and> j' < j) \<longrightarrow> net_move df i' j' < net_move df i j)))"
proof -
  let ?ps = "scan_pairs (length df)"
  let ?ok = "\<lambda>p. survives self df atr (fst p) (snd p)"
  let ?v = "\<lambda>p. net_move df (fst p) (snd p)"
  let ?g = "\<lambda>p. mk_impulse df atr (fst p) (snd p)"
  have mem: "(i, j) \<in> set ?ps \<longleftrightarrow> i + 3 \<le> j \<and> j < i + 20 \<and> j < length df" for i j
    by (simp add: set_scan_pairs)
  from fold_best [of "impulse_step self df atr" ?ok ?v ?g ?ps 0 None]
  consider (none) "\<not> (\<exists>p \<in> set ?ps. ?ok p \<and> ?v p > 0)"
      "fold (impulse_step self df atr) ?ps (None, 0) = (None, 0)"
    | (some) k where "k < length ?ps" "?ok (?ps ! k)" "?v (?ps ! k) > 0"
      "fold (impulse_step self df atr) ?ps (None, 0) = (Some (?g (?ps ! k)), ?v (?ps ! k))"
      "\<forall>k' < length ?ps. ?ok (?ps ! k') \<longrightarrow> ?v (?ps ! k') \<le> ?v (?ps ! k)"
      "\<forall>k' < k. ?ok (?ps ! k') \<longrightarrow> ?v (?ps ! k') < ?v (?ps ! k)"
    unfolding impulse_step_def by blast
  then show ?thesis
  proof cases
    case none
    from none(1) have "\<not> (\<exists>i j. i + 3 \<le> j \<and> j < i + 20 \<and> j < length df
                 \<and> survives self df atr i j \<and> net_move df i j > 0)"
      using mem by fastforce
    with none(2) show ?thesis by (simp add: find_major_impulse_fold)
  next
    case some
    obtain i j where ij: "?ps ! k = (i, j)" by (cases "?ps ! k") auto
    from some(1) ij have "(i, j) \<in> set ?ps" by (metis nth_mem)
    then have rng: "i + 3 \<le> j" "j < i + 20" "j < length df" using mem by auto
    have best: "net_move df i' j' \<le> net_move df i j
                 \<and> (i' < i \<or> (i' = i \<and> j' < j) \<longrightarrow> net_move df i' j' < net_move df i j)"
      if h: "i' + 3 \<le> j' \<and> j' < i' + 20 \<and> j' < length df \<and> survives self df atr i' j'" for i' j'
    proof
      from h have in': "(i', j') \<in> set ?ps" using mem by simp
      then obtain k' where k': "k' < length ?ps" "?ps ! k' = (i', j')"
        by (auto simp: in_set_conv_nth)
      with some(5) h ij show "net_move df i' j' \<le> net_move df i j" by fastforce
      show "i' < i \<or> (i' = i \<and> j' < j) \<longrightarrow> net_move df i' j' < net_move df i j"
      proof
        assume "i' < i \<or> (i' = i \<and> j' < j)"
        then have "scan_before (i', j') (?ps ! k)" by (simp add: scan_before_def ij)
        from scan_before_index [OF some(1) in' this] obtain k2 where "k2 < k" "?ps ! k2 = (i', j')"
          by blast
        with some(6) h ij show "net_move df i' j' < net_move df i j" by fastforce
      qed
    qed
    from some(2,3,4) ij have "survives self df atr i j" "net_move df i j > 0"
      "find_major_impulse self df atr = Inr (Some (mk_impulse df atr i j))"
      by (simp_all add: find_major_impulse_fold)
    with rng best show ?thesis by blast
  qed
qed



lemma origin_loop_step:
  "origin_loop df s (l # rest) =
     (if qualifies df s l then Inr (Some (origin_of df s l)) else origin_loop df s rest)"
proof (cases "window df s l = []")
  case True
  then show ?thesis
    by (simp add: qualifies_def window_def)
next
  case False
  then obtain c cs where w: "window df s l = c # cs" by (cases "window df s l") auto
  have mn: "series_min (map low (c # cs)) = Some (win_low (c # cs))"
    unfolding win_low_def by (subst series_min_Min) simp_all
  have mx: "series_max (map high (c # cs)) = Some (win_high (c # cs))"
    unfolding win_high_def by (subst series_max_Max) simp_all
  have "origin_loop df s (l # rest) =
     (if compressed (c # cs) \<and> balanced (c # cs) then Inr (Some (origin_of df s l)) else origin_loop df s rest)"
    unfolding origin_loop.simps Let_def w [unfolded window_def] mn mx
    by (simp add: series_mean_def iloc_def iloc_last_def compressed_def balanced_def origin_of_def
        w mult.commute del: series_min.simps series_max.simps)
  then show ?thesis by (simp add: qualifies_def w)
qed

lemma origin_loop_find:
  "origin_loop df s ls =
     Inr (case find (qualifies df s) ls of None \<Rightarrow> None | Some l \<Rightarrow> Some (origin_of df s l))"
proof (induction ls)
  case Nil
  show ?case by simp
next
  case (Cons l ls)
  show ?case unfolding origin_loop_step by (simp add: Cons.IH)
qed

lemma find_origin_zone_cases:
  assumes "zone_candles_min self \<le> s"
  shows "(find_origin_zone self df s = Inr None
           \<and> (\<forall>l. zone_candles_min self \<le> l \<and> l \<le> zone_candles_max self \<and> l \<le> s
                  \<longrightarrow> \<not> qualifies df s l))
       \<or> (\<exists>l. zone_candles_min self \<le> l \<and> l \<le> zone_candles_max self \<and> l \<le> s
             \<and> qualifies df s l
             \<and> (\<forall>l'. zone_candles_min self \<le> l' \<and> l' < l \<longrightarrow> \<not> qualifies df s l')
             \<and> find_origin_zone self df s = Inr (Some (origin_of df s l)))"
proof -
  define a where "a = zone_candles_min self"
  define u where "u = min (zone_candles_max self + 1) (s + 1)"
  have u: "l < u \<longleftrightarrow> l \<le> zone_candles_max self \<and> l \<le> s" for l
    unfolding u_def by linarith
  have eq: "find_origin_zone self df s =
      Inr (case find (qualifies df s) [a..<u] of None \<Rightarrow> None | Some l \<Rightarrow> Some (origin_of df s l))"
    using assms unfolding find_origin_zone_def origin_loop_find a_def u_def
    by (simp only: not_less [symmetric] if_False)
  show ?thesis
  proof (cases "find (qualifies df s) [a..<u]")
    case None
    have "\<not> qualifies df s l" if "a \<le> l \<and> l \<le> zone_candles_max self \<and> l \<le> s" for l
    proof -
      from that u have "l \<in> set [a..<u]" by simp
      with None show ?thesis unfolding find_None_iff by blast
    qed
    with None eq show ?thesis unfolding a_def by simp
  next
    case (Some l)
    then obtain k where k: "k < length [a..<u]" "qualifies df s ([a..<u] ! k)" "l = [a..<u] ! k"
      "\<forall>k' < k. \<not> qualifies df s ([a..<u] ! k')"
      unfolding find_Some_iff by blast
    from k(1) have ku: "a + k < u" by simp
    with k(3) have l: "l = a + k" by simp
    with ku u have rng: "a \<le> l" "l \<le> zone_candles_max self" "l \<le> s" by simp_all
    have "\<not> qualifies df s l'" if "a \<le> l' \<and> l' < l" for l'
    proof -
      from that l have "l' - a < k" by linarith
      moreover from that l ku have "[a..<u] ! (l' - a) = l'" by simp
      ultimately show ?thesis using k(4) by metis
    qed
    moreover from k(2,3) have "qualifies df s l" by simp
    moreover from Some eq have "find_origin_zone self df s = Inr (Some (origin_of df s l))" by simp
    ultimately show ?thesis using rng unfolding a_def by blast
  qed
qed

lemma find_origin_zone_total: "\<exists>r. find_origin_zone self df s = Inr r"
  by (simp add: find_origin_zone_def origin_loop_find)

lemma validate_zone_eq:
  "validate_zone df z imp =
     Inr (end_idx imp < length df
          \<and> \<not> \<bar>close (df ! end_idx imp) - (origin_low z + origin_high z) / 2\<bar>
                < (origin_high z - origin_low z) * 2)"
  by (simp add: validate_zone_def iloc_def Let_def not_le)

lemma validate_zone_total: "\<exists>b. validate_zone df z imp = Inr b"
  unfolding validate_zone_eq by blast

lemma calculate_atr_total: "df \<noteq> [] \<Longrightarrow> \<exists>atr. calculate_atr df = Inr atr"
  by (cases "14 \<le> length df") (auto simp only: calculate_atr_def if_True if_False)

lemma extract_zones_total: "\<exists>zs. extract_zones self df name fd tf = Inr zs"
proof (cases "length df < 20")
  case True
  then show ?thesis by (simp add: extract_zones_def)
next
  case False
  then have "df \<noteq> []" by auto
  then obtain atr where a: "calculate_atr df = Inr atr" using calculate_atr_total by blast
  obtain r where r: "find_major_impulse self df atr = Inr r"
    by (simp add: find_major_impulse_fold)
  show ?thesis
  proof (cases r)
    case None
    with a r False show ?thesis by (simp add: extract_zones_def)
  next
    case (Some imp)
    obtain oz where oz: "find_origin_zone self df (start_idx imp) = Inr oz"
      using find_origin_zone_total by blast
    show ?thesis
    proof (cases oz)
      case None
      with a r Some oz False show ?thesis by (simp add: extract_zones_def)
    next
      case (Some z)
      obtain b where "validate_zone df z imp = Inr b" using validate_zone_total by blast
      with a r \<open>r = Some imp\<close> oz Some False show ?thesis
        by (cases b) (simp_all add: extract_zones_def)
    qed
  qed
qed


text \<open>
  Claim C5, as stated, fails: on four flat candles with an ATR baseline of 0 the pair
  \<open>(0, 3)\<close> is in range and survives both discards (its net displacement 0 is not below
  1.5 * 0 and its pullback 0 does not exceed 0.3 * 0), yet the result is none:
  \<open>max_move\<close> starts at 0 and only a strictly larger displacement is recorded.
\<close>

theorem C5_zero_displacement_counterexample:
  "0 + 3 \<le> (3::nat) \<and> (3::nat) < 0 + 20 \<and> 3 < length flat4
   \<and> survives ZoneDetector_init flat4 0 0 3
   \<and> find_major_impulse ZoneDetector_init flat4 0 = Inr None"
  by code_simp

text \<open>
  Claim C5, amended: for every candle series and ATR baseline, \<open>find_major_impulse\<close>
  returns without raising; the pairs it considers are those with \<open>3 \<le> j - i < 20\<close> and
  \<open>j\<close> a row of the series; a pair is discarded when its net displacement is below
  \<open>atr_multiplier * atr\<close> or its pullback exceeds 0.3 times its net displacement
  (\<open>survives\<close>).  The result is none exactly when no surviving pair has a positive net
  displacement.  Otherwise the returned impulse is a surviving pair of positive net
  displacement that no surviving pair exceeds, every surviving pair before it in scan
  order (ascending \<open>i\<close>, then ascending \<open>j\<close>) has a strictly smaller net displacement,
  and its strength is HIGH if its net displacement exceeds \<open>2 * atr\<close> and MEDIUM otherwise.
\<close>

theorem C5_find_major_impulse_best:
  "(find_major_impulse self df atr = Inr None \<longleftrightarrow>
      \<not> (\<exists>i j. i + 3 \<le> j \<and> j < i + 20 \<and> j < length df
                \<and> survives self df atr i j \<and> 0 < net_move df i j))
   \<and> (\<forall>imp. find_major_impulse self df atr = Inr (Some imp) \<longrightarrow>
         start_idx imp + 3 \<le> end_idx imp \<and> end_idx imp < start_idx imp + 20
         \<and> end_idx imp < length df
         \<and> survives self df atr (start_idx imp) (end_idx imp)
         \<and> 0 < net_move df (start_idx imp) (end_idx imp)
         \<and> (\<forall>i j. i + 3 \<le> j \<and> j < i + 20 \<and> j < length df \<and> survives self df atr i j \<longrightarrow>
               net_move df i j \<le> net_move df (start_idx imp) (end_idx imp)
               \<and> (i < start_idx imp \<or> (i = start_idx imp \<and> j < end_idx imp) \<longrightarrow>
                    net_move df i j < net_move df (start_idx imp) (end_idx imp)))
         \<and> strength imp =
             (if net_move df (start_idx imp) (end_idx imp) > 2 * atr then ''HIGH'' else ''MEDIUM''))
   \<and> (\<exists>r. find_major_impulse self df atr = Inr r)"
  using find_major_impulse_cases [of self df atr]
proof (elim disjE conjE exE)
  assume "find_major_impulse self df atr = Inr None"
    and "\<not> (\<exists>i j. i + 3 \<le> j \<and> j < i + 20 \<and> j < length df
                \<and> survives self df atr i j \<and> 0 < net_move df i j)"
  then show ?thesis by simp
next
  fix i j
  assume rng: "i + 3 \<le> j" "j < i + 20" "j < length df"
    and ok: "survives self df atr i j" "0 < net_move df i j"
    and eq: "find_major_impulse self df atr = Inr (Some (mk_impulse df atr i j))"
    and best: "\<forall>i' j'. i' + 3 \<le> j' \<and> j' < i' + 20 \<and> j' < length df \<and> survives self df atr i' j'
               \<longrightarrow> net_move df i' j' \<le> net_move df i j
                 \<and> (i' < i \<or> (i' = i \<and> j' < j) \<longrightarrow> net_move df i' j' < net_move df i j)"
  have sel: "start_idx (mk_impulse df atr i j) = i" "end_idx (mk_impulse df atr i j) = j"
    "strength (mk_impulse df atr i j) = (if net_move df i j > 2 * atr then ''HIGH'' else ''MEDIUM'')"
    by (simp_all add: mk_impulse_def)
  from rng ok have ex: "\<exists>i j. i + 3 \<le> j \<and> j < i + 20 \<and> j < length df
                \<and> survives self df atr i j \<and> 0 < net_move df i j" by blast
  show ?thesis
    unfolding eq using rng ok best ex by (simp only: sel sum.inject option.inject simp_thms) blast
qed

text \<open>
  On a five-candle rally with ATR 2 the pairs \<open>(0, 4)\<close> and \<open>(1, 4)\<close> tie at 30; the first
  in scan order is returned.
\<close>

theorem C5_find_major_impulse_best_witness:
  "find_major_impulse ZoneDetector_init rally5 2 =
     Inr (Some \<lparr>direction = ''BULLISH'', start_idx = 0, end_idx = 4, strength = ''HIGH'',
                start_time = ''2026-01-28 09:15'', end_time = ''2026-01-28 10:15''\<rparr>)
   \<and> survives ZoneDetector_init rally5 2 0 4 \<and> survives ZoneDetector_init rally5 2 1 4
   \<and> net_move rally5 1 4 \<le> net_move rally5 0 4
   \<and> net_move rally5 0 3 < net_move rally5 0 4"
proof -
  let ?imp = "\<lparr>direction = ''BULLISH'', start_idx = 0, end_idx = 4, strength = ''HIGH'',
                start_time = ''2026-01-28 09:15'', end_time = ''2026-01-28 10:15''\<rparr>"
  have run: "find_major_impulse ZoneDetector_init rally5 2 = Inr (Some ?imp)"
    by code_simp
  have len: "length rally5 = 5" by (simp add: rally5_def)
  have s14: "survives ZoneDetector_init rally5 2 1 4" and s03: "survives ZoneDetector_init rally5 2 0 3"
    by code_simp+
  from C5_find_major_impulse_best [of ZoneDetector_init rally5 2] run
  have best: "survives ZoneDetector_init rally5 2 (start_idx ?imp) (end_idx ?imp)
      \<and> (\<forall>i j. i + 3 \<le> j \<and> j < i + 20 \<and> j < length rally5
              \<and> survives ZoneDetector_init rally5 2 i j \<longrightarrow>
               net_move rally5 i j \<le> net_move rally5 (start_idx ?imp) (end_idx ?imp)
               \<and> (i < start_idx ?imp \<or> (i = start_idx ?imp \<and> j < end_idx ?imp) \<longrightarrow>
                    net_move rally5 i j < net_move rally5 (start_idx ?imp) (end_idx ?imp)))"
    by blast
  then have "survives ZoneDetector_init rally5 2 0 4" by simp
  moreover from best s14 len have "net_move rally5 1 4 \<le> net_move rally5 0 4"
    by (simp del: One_nat_def)
  moreover from best s03 len have "net_move rally5 0 3 < net_move rally5 0 4"
    by simp
  ultimately show ?thesis using run s14 by simp
qed

text \<open>
  Claim C10: an impulse returned by \<open>find_major_impulse\<close> has \<open>0 \<le> start_idx\<close>,
  \<open>start_idx + 3 \<le> end_idx \<le> start_idx + 19\<close>, \<open>end_idx\<close> a row of the series, a net
  displacement \<open>|close[end_idx] - close[start_idx]|\<close> of at least \<open>atr_multiplier * atr\<close>,
  direction BULLISH exactly when \<open>close[end_idx] > close[start_idx]\<close> and BEARISH
  otherwise, and strength HIGH or MEDIUM.
\<close>

theorem C10_impulse_well_formed:
  assumes "find_major_impulse self df atr = Inr (Some imp)"
  shows "0 \<le> start_idx imp \<and> start_idx imp + 3 \<le> end_idx imp \<and> end_idx imp \<le> start_idx imp + 19
     \<and> end_idx imp < length df
     \<and> atr_multiplier self * atr \<le> \<bar>close (df ! end_idx imp) - close (df ! start_idx imp)\<bar>
     \<and> (direction imp = ''BULLISH'' \<longleftrightarrow> close (df ! end_idx imp) > close (df ! start_idx imp))
     \<and> (direction imp = ''BEARISH'' \<longleftrightarrow> \<not> close (df ! end_idx imp) > close (df ! start_idx imp))
     \<and> (strength imp = ''HIGH'' \<or> strength imp = ''MEDIUM'')"
  using find_major_impulse_cases [of self df atr] assms
proof (elim disjE conjE exE)
  assume "find_major_impulse self df atr = Inr None"
  with assms show ?thesis by simp
next
  fix i j
  assume rng: "i + 3 \<le> j" "j < i + 20" "j < length df"
    and ok: "survives self df atr i j"
    and eq: "find_major_impulse self df atr = Inr (Some (mk_impulse df atr i j))"
  from eq assms have imp: "imp = mk_impulse df atr i j" by simp
  from ok have "atr_multiplier self * atr \<le> \<bar>close (df ! j) - close (df ! i)\<bar>"
    by (simp add: survives_def net_move_def)
  with rng show ?thesis unfolding imp by (simp add: mk_impulse_def)
qed

theorem C10_impulse_well_formed_witness:
  "start_idx \<lparr>direction = ''BULLISH'', start_idx = 0, end_idx = 4, strength = ''HIGH'',
             start_time = ''2026-01-28 09:15'', end_time = ''2026-01-28 10:15''\<rparr> + 3 \<le> (4::nat)
   \<and> (4::nat) < length rally5
   \<and> atr_multiplier ZoneDetector_init * 2 \<le> \<bar>close (rally5 ! 4) - close (rally5 ! 0)\<bar>
   \<and> close (rally5 ! 4) > close (rally5 ! 0)"
proof -
  let ?imp = "\<lparr>direction = ''BULLISH'', start_idx = 0, end_idx = 4, strength = ''HIGH'',
                start_time = ''2026-01-28 09:15'', end_time = ''2026-01-28 10:15''\<rparr>"
  have run: "find_major_impulse ZoneDetector_init rally5 2 = Inr (Some ?imp)"
    by code_simp
  from C10_impulse_well_formed [OF run]
  have "start_idx ?imp + 3 \<le> end_idx ?imp \<and> end_idx ?imp < length rally5
     \<and> atr_multiplier ZoneDetector_init * 2 \<le> \<bar>close (rally5 ! end_idx ?imp) - close (rally5 ! start_idx ?imp)\<bar>
     \<and> (direction ?imp = ''BULLISH'' \<longleftrightarrow> close (rally5 ! end_idx ?imp) > close (rally5 ! start_idx ?imp))"
    by blast
  then show ?thesis by simp linarith
qed



text \<open>
  Claim C6: \<open>find_origin_zone\<close> returns none when the impulse start index \<open>s\<close> is below
  \<open>zone_candles_min\<close>.  Otherwise it returns the zone of the smallest window size \<open>l\<close>
  from \<open>zone_candles_min\<close> up to \<open>zone_candles_max\<close> (and at most \<open>s\<close>, the rows there
  are before the impulse) whose window passes compression and balance; the zone's low and
  high are that window's minimum low and maximum high.  If no such window size
  qualifies, the result is none.  The function never raises.
\<close>

theorem C6_find_origin_zone_first_window:
  "(s < zone_candles_min self \<longrightarrow> find_origin_zone self df s = Inr None)
   \<and> (zone_candles_min self \<le> s \<longrightarrow>
        (find_origin_zone self df s = Inr None
           \<and> (\<forall>l. zone_candles_min self \<le> l \<and> l \<le> zone_candles_max self \<and> l \<le> s
                  \<longrightarrow> \<not> qualifies df s l))
        \<or> (\<exists>l. zone_candles_min self \<le> l \<and> l \<le> zone_candles_max self \<and> l \<le> s
              \<and> qualifies df s l
              \<and> (\<forall>l'. zone_candles_min self \<le> l' \<and> l' < l \<longrightarrow> \<not> qualifies df s l')
              \<and> find_origin_zone self df s =
                  Inr (Some \<lparr>origin_low = win_low (window df s l),
                             origin_high = win_high (window df s l), candle_count = l\<rparr>)))"
proof (intro conjI impI)
  assume "s < zone_candles_min self"
  then show "find_origin_zone self df s = Inr None" by (simp add: find_origin_zone_def)
next
  assume "zone_candles_min self \<le> s"
  from find_origin_zone_cases [OF this, of df]
  show "(find_origin_zone self df s = Inr None
           \<and> (\<forall>l. zone_candles_min self \<le> l \<and> l \<le> zone_candles_max self \<and> l \<le> s
                  \<longrightarrow> \<not> qualifies df s l))
        \<or> (\<exists>l. zone_candles_min self \<le> l \<and> l \<le> zone_candles_max self \<and> l \<le> s
              \<and> qualifies df s l
              \<and> (\<forall>l'. zone_candles_min self \<le> l' \<and> l' < l \<longrightarrow> \<not> qualifies df s l')
              \<and> find_origin_zone self df s =
                  Inr (Some \<lparr>origin_low = win_low (window df s l),
                             origin_high = win_high (window df s l), candle_count = l\<rparr>))"
    unfolding origin_of_def .
qed

theorem C6_find_origin_zone_first_window_witness:
  "find_origin_zone ZoneDetector_init day20 2 =
     Inr (Some \<lparr>origin_low = 100, origin_high = 102, candle_count = 2\<rparr>)
   \<and> qualifies day20 2 2
   \<and> find_origin_zone ZoneDetector_init day20 1 = Inr None
   \<and> find_origin_zone ZoneDetector_init trend4 3 = Inr None
   \<and> \<not> qualifies trend4 3 2 \<and> \<not> qualifies trend4 3 3"
proof -
  have run: "find_origin_zone ZoneDetector_init day20 2 =
     Inr (Some \<lparr>origin_low = 100, origin_high = 102, candle_count = 2\<rparr>)"
    by code_simp
  have run3: "find_origin_zone ZoneDetector_init trend4 3 = Inr None"
    by code_simp
  have cfg: "zone_candles_min ZoneDetector_init = 2" "zone_candles_max ZoneDetector_init = 6"
    by (simp_all add: ZoneDetector_init_def)
  from C6_find_origin_zone_first_window [of 1 ZoneDetector_init day20]
  have one: "find_origin_zone ZoneDetector_init day20 1 = Inr None" by (simp add: cfg)
  from C6_find_origin_zone_first_window [of 2 ZoneDetector_init day20] run
  have two: "qualifies day20 2 2" by (auto simp: cfg)
  from C6_find_origin_zone_first_window [of 3 ZoneDetector_init trend4] run3
  have "\<forall>l. 2 \<le> l \<and> l \<le> 6 \<and> l \<le> 3 \<longrightarrow> \<not> qualifies trend4 3 l" by (simp add: cfg)
  then have "\<not> qualifies trend4 3 2 \<and> \<not> qualifies trend4 3 3"
    by simp
  with run run3 one two show ?thesis by simp
qed

text \<open>
  Claim C8: on every candle series \<open>extract_zones\<close> returns a list and raises nothing;
  the list is empty when the series has fewer than 20 candles, when no impulse is found,
  when no origin window is found, and when the candidate zone fails validation.
\<close>

theorem C8_extract_zones_never_raises:
  "(\<exists>zs. extract_zones self df name fd tf = Inr zs)
   \<and> (length df < 20 \<longrightarrow> extract_zones self df name fd tf = Inr [])
   \<and> (\<forall>atr. calculate_atr df = Inr atr \<and> find_major_impulse self df atr = Inr None
         \<longrightarrow> extract_zones self df name fd tf = Inr [])
   \<and> (\<forall>atr imp. calculate_atr df = Inr atr \<and> find_major_impulse self df atr = Inr (Some imp)
           \<and> find_origin_zone self df (start_idx imp) = Inr None
         \<longrightarrow> extract_zones self df name fd tf = Inr [])
   \<and> (\<forall>atr imp oz. calculate_atr df = Inr atr \<and> find_major_impulse self df atr = Inr (Some imp)
           \<and> find_origin_zone self df (start_idx imp) = Inr (Some oz)
           \<and> validate_zone df oz imp = Inr False
         \<longrightarrow> extract_zones self df name fd tf = Inr [])"
proof (intro conjI allI impI)
  show "\<exists>zs. extract_zones self df name fd tf = Inr zs" by (rule extract_zones_total)
qed (simp_all add: extract_zones_def)

theorem C8_extract_zones_never_raises_witness:
  "extract_zones ZoneDetector_init (butlast day20) ''RELIANCE'' ''2026-01-28'' ''15minute'' = Inr []
   \<and> calculate_atr (flat4 @ flat4 @ flat4 @ flat4 @ flat4) = Inr 0
   \<and> find_major_impulse ZoneDetector_init (flat4 @ flat4 @ flat4 @ flat4 @ flat4) 0 = Inr None
   \<and> extract_zones ZoneDetector_init (flat4 @ flat4 @ flat4 @ flat4 @ flat4)
        ''RELIANCE'' ''2026-01-28'' ''15minute'' = Inr []"
proof -
  let ?flat = "flat4 @ flat4 @ flat4 @ flat4 @ flat4"
  have short: "length (butlast day20) < 20" by (simp add: day20_def)
  have atr: "calculate_atr ?flat = Inr 0" by code_simp
  have imp: "find_major_impulse ZoneDetector_init ?flat 0 = Inr None" by code_simp
  note C8 = C8_extract_zones_never_raises [of ZoneDetector_init _ "''RELIANCE''" "''2026-01-28''" "''15minute''"]
  from C8 [of "butlast day20"] short
  have "extract_zones ZoneDetector_init (butlast day20) ''RELIANCE'' ''2026-01-28'' ''15minute'' = Inr []"
    by blast
  moreover from C8 [of ?flat] atr imp
  have "extract_zones ZoneDetector_init ?flat ''RELIANCE'' ''2026-01-28'' ''15minute'' = Inr []"
    by blast
  ultimately show ?thesis using atr imp by simp
qed

text \<open>
  Claim C2, as stated, fails: on the series \<open>day20\<close> the impulse runs from row 2 to row 5
  and the candidate zone is 100 to 102 (midpoint 101, range 2).  The candle that follows
  the impulse's end candle (row 6) closes at 103, only 2 away from the midpoint and so
  less than 2 times the range, yet the zone is returned: the code tests the close of the
  end candle itself (row 5, 130).
\<close>

theorem C2_following_candle_counterexample:
  "calculate_atr day20 = Inr (27 / 7)
   \<and> find_major_impulse ZoneDetector_init day20 (27 / 7) =
       Inr (Some \<lparr>direction = ''BULLISH'', start_idx = 2, end_idx = 5, strength = ''HIGH'',
                  start_time = ''2026-01-28 09:45'', end_time = ''2026-01-28 10:30''\<rparr>)
   \<and> find_origin_zone ZoneDetector_init day20 2 =
       Inr (Some \<lparr>origin_low = 100, origin_high = 102, candle_count = 2\<rparr>)
   \<and> \<bar>close (day20 ! (5 + 1)) - (100 + 102) / 2\<bar> < 2 * (102 - 100)
   \<and> extract_zones ZoneDetector_init day20 ''RELIANCE'' ''2026-01-28'' ''15minute'' =
       Inr [\<lparr>symbol = ''RELIANCE'', fetch_date = ''2026-01-28'', timeframe = ''15minute'',
             zone_type = ''BULLISH'', zone_low = 100, zone_high = 102, impulse_strength = ''HIGH'',
             impulse_start_time = ''2026-01-28 09:45'', impulse_end_time = ''2026-01-28 10:30''\<rparr>]"
  by code_simp

text \<open>
  Claim C2, amended: when \<open>extract_zones\<close> has found an impulse and a candidate origin
  zone on a series of at least 20 candles, the zone is returned if and only if the close
  of the impulse's end candle itself (row \<open>end_idx\<close>, which always exists) lies at least
  2 times the candidate zone's range away from the candidate zone's midpoint; otherwise
  the result is the empty list.
\<close>

theorem C2_zone_kept_iff_end_close_far:
  assumes "20 \<le> length df"
    and "calculate_atr df = Inr atr"
    and "find_major_impulse self df atr = Inr (Some imp)"
    and "find_origin_zone self df (start_idx imp) = Inr (Some oz)"
  shows "end_idx imp < length df
     \<and> extract_zones self df name fd tf =
        (if 2 * (origin_high oz - origin_low oz)
              \<le> \<bar>close (df ! end_idx imp) - (origin_low oz + origin_high oz) / 2\<bar>
         then Inr [\<lparr>symbol = name, fetch_date = fd, timeframe = tf,
                    zone_type = direction imp,
                    zone_low = origin_low oz, zone_high = origin_high oz,
                    impulse_strength = strength imp,
                    impulse_start_time = start_time imp,
                    impulse_end_time = end_time imp\<rparr>]
         else Inr [])"
proof -
  from find_major_impulse_cases [of self df atr] assms(3) have len: "end_idx imp < length df"
    by (auto simp: mk_impulse_def)
  show ?thesis
    using assms len
    by (simp add: extract_zones_def validate_zone_eq not_less mult.commute)
qed

theorem C2_zone_kept_iff_end_close_far_witness:
  "extract_zones ZoneDetector_init day20 ''RELIANCE'' ''2026-01-28'' ''15minute'' =
       Inr [\<lparr>symbol = ''RELIANCE'', fetch_date = ''2026-01-28'', timeframe = ''15minute'',
             zone_type = ''BULLISH'', zone_low = 100, zone_high = 102, impulse_strength = ''HIGH'',
             impulse_start_time = ''2026-01-28 09:45'', impulse_end_time = ''2026-01-28 10:30''\<rparr>]
   \<and> 2 * (102 - 100) \<le> \<bar>close (day20 ! 5) - (100 + 102) / 2\<bar>"
proof -
  let ?imp = "\<lparr>direction = ''BULLISH'', start_idx = 2, end_idx = 5, strength = ''HIGH'',
                  start_time = ''2026-01-28 09:45'', end_time = ''2026-01-28 10:30''\<rparr>"
  let ?oz = "\<lparr>origin_low = 100, origin_high = 102, candle_count = 2\<rparr>"
  have len: "20 \<le> length day20" by (simp add: day20_def)
  have atr: "calculate_atr day20 = Inr (27 / 7)" by code_simp
  have imp: "find_major_impulse ZoneDetector_init day20 (27 / 7) = Inr (Some ?imp)" by code_simp
  have oz: "find_origin_zone ZoneDetector_init day20 (start_idx ?imp) = Inr (Some ?oz)" by code_simp
  have far: "2 * (102 - 100) \<le> \<bar>close (day20 ! 5) - (100 + 102) / 2\<bar>"
    by (simp add: day20_def bar_def)
  from C2_zone_kept_iff_end_close_far [OF len atr imp oz, of "''RELIANCE''" "''2026-01-28''" "''15minute''"] far
  show ?thesis by simp
qed
section \<open>Properties of the trading calendar\<close>

lemma fetch_loop_two:
  "fetch_loop d 0 =
     (case get_previous_trading_day d of Inl e \<Rightarrow> Inl e | Inr d1 \<Rightarrow> get_previous_trading_day d1)"
  by (simp add: fetch_loop.simps [of _ 0] fetch_loop.simps [of _ "Suc 0"] fetch_loop.simps [of _ "Suc (Suc 0)"]
      split: sum.splits)

lemma lookback_loop_numeral:
  "lookback_loop (numeral k) c =
     (if is_trading_day c then Inr (Some c)
      else case minus_one_day c of Inl e \<Rightarrow> Inl e | Inr c' \<Rightarrow> lookback_loop (pred_numeral k) c')"
  by (simp add: numeral_eq_Suc)

lemmas cal_defs = is_trading_day_def weekday_def toordinal_def days_before_year_def
  days_before_month_def days_in_month_def is_leap_def strftime_def digit_char_def
  NSE_HOLIDAYS_2026_def minus_one_day_def get_previous_trading_day_def lookback_loop_numeral

lemmas parse_defs = strptime_def is_digit_def digit_val_def in_range_def days_in_month_def is_leap_def

lemma below_ten: "(k::nat) < 10 \<Longrightarrow> k \<in> {0, 1, 2, 3, 4, 5, 6, 7, 8, 9}"
  by auto



lemma digit_val_le: "is_digit c \<Longrightarrow> digit_val c \<le> 9"
  by (auto simp: is_digit_def digit_val_def)

lemma digit_char_dash: "digit_char n \<noteq> CHR ''-''" "digit_char n \<noteq> CHR '' ''"
  using below_ten [of "n mod 10"] by (auto simp: digit_char_def)

lemma days_in_month_bounds: "28 \<le> days_in_month y m" "days_in_month y m \<le> 31"
  by (simp_all add: days_in_month_def)






lemma match_Y_range: "match_Y s = Some (y, r) \<Longrightarrow> y \<le> 9999"
  by (cases s rule: match_Y.cases) (auto split: if_splits dest!: digit_val_le)

lemma match_m_range: "match_m s = Some (m, r) \<Longrightarrow> 1 \<le> m \<and> m \<le> 12"
  by (cases s rule: match_m.cases) (auto simp: in_range_def split: if_splits)

lemma match_d_range: "match_d s = Some (d, r) \<Longrightarrow> 1 \<le> d"
  by (cases s rule: match_d.cases) (auto simp: in_range_def split: if_splits)

lemma strptime_Inr:
  assumes "strptime s = Inr d"
  obtains y s1 s2 m s3 s4 dd where
    "match_Y s = Some (y, s1)" "match_dash s1 = Some s2" "match_m s2 = Some (m, s3)"
    "match_dash s3 = Some s4" "match_d s4 = Some (dd, [])"
    "1 \<le> y" "dd \<le> days_in_month y m" "d = \<lparr>year = y, month = m, day = dd\<rparr>"
proof -
  obtain y s1 where 1: "match_Y s = Some (y, s1)"
    using assms by (cases "match_Y s") (auto simp: strptime_def)
  obtain s2 where 2: "match_dash s1 = Some s2"
    using assms 1 by (cases "match_dash s1") (auto simp: strptime_def)
  obtain m s3 where 3: "match_m s2 = Some (m, s3)"
    using assms 1 2 by (cases "match_m s2") (auto simp: strptime_def)
  obtain s4 where 4: "match_dash s3 = Some s4"
    using assms 1 2 3 by (cases "match_dash s3") (auto simp: strptime_def)
  obtain dd rest where 5: "match_d s4 = Some (dd, rest)"
    using assms 1 2 3 4 by (cases "match_d s4") (auto simp: strptime_def)
  from assms have fin: "(if rest \<noteq> [] then Inl (ValueError (''unconverted data remains: '' @ rest))
        else if y < 1 then Inl (ValueError ''year 0 is out of range'')
        else if dd > days_in_month y m then Inl (ValueError ''day is out of range for month'')
        else Inr \<lparr>year = y, month = m, day = dd\<rparr>) = Inr d"
    by (simp only: strptime_def 1 2 3 4 5 option.case prod.case)
  then have "rest = []" by (cases "rest = []") simp_all
  with fin have "\<not> y < 1" by (cases "y < 1") simp_all
  with fin \<open>rest = []\<close> have "\<not> dd > days_in_month y m" by (cases "dd > days_in_month y m") simp_all
  with fin \<open>rest = []\<close> \<open>\<not> y < 1\<close> have "d = \<lparr>year = y, month = m, day = dd\<rparr>" by simp
  with that [OF 1 2 3 4] 5 \<open>rest = []\<close> \<open>\<not> y < 1\<close> \<open>\<not> dd > days_in_month y m\<close>
  show thesis by simp
qed

lemma strptime_valid:
  assumes "strptime s = Inr d"
  shows "valid_date d"
proof -
  from assms obtain y s1 s2 m s3 s4 dd where
    "match_Y s = Some (y, s1)" "match_m s2 = Some (m, s3)" "match_d s4 = Some (dd, [])"
    "1 \<le> y" "dd \<le> days_in_month y m" "d = \<lparr>year = y, month = m, day = dd\<rparr>"
    by (rule strptime_Inr)
  with match_Y_range [of s y s1] match_m_range [of s2 m s3] match_d_range [of s4 dd "[]"]
  show ?thesis by (simp add: valid_date_def)
qed


lemma minus_one_day_valid:
  assumes "valid_date d" "minus_one_day d = Inr d'"
  shows "valid_date d'"
proof -
  from assms(1) have v: "1 \<le> year d" "year d \<le> 9999" "1 \<le> month d" "month d \<le> 12"
    "1 \<le> day d" "day d \<le> days_in_month (year d) (month d)"
    by (simp_all add: valid_date_def)
  consider "day d > 1" | "day d = 1" "month d > 1" | "day d = 1" "month d = 1" "year d > 1"
    | "day d = 1" "month d = 1" "year d = 1"
    using v by linarith
  then show ?thesis
  proof cases
    case 1
    with assms(2) have "d' = d\<lparr>day := day d - 1\<rparr>" by (simp add: minus_one_day_def)
    with v 1 show ?thesis by (auto simp: valid_date_def)
  next
    case 2
    with assms(2) have "d' = d\<lparr>month := month d - 1, day := days_in_month (year d) (month d - 1)\<rparr>"
      by (simp add: minus_one_day_def)
    with v 2 days_in_month_bounds(1) [of "year d" "month d - 1"] show ?thesis
      by (auto simp: valid_date_def)
  next
    case 3
    with assms(2) have "d' = \<lparr>year = year d - 1, month = 12, day = 31\<rparr>"
      by (simp add: minus_one_day_def)
    with v 3 show ?thesis by (auto simp: valid_date_def days_in_month_def)
  next
    case 4
    with assms(2) show ?thesis by (simp add: minus_one_day_def)
  qed
qed

lemma lookback_loop_valid:
  "valid_date c \<Longrightarrow> lookback_loop n c = Inr (Some r) \<Longrightarrow> valid_date r"
proof (induction n arbitrary: c)
  case 0
  then show ?case by simp
next
  case (Suc n)
  show ?case
  proof (cases "is_trading_day c")
    case True
    with Suc.prems show ?thesis by simp
  next
    case False
    with Suc.prems obtain c' where c': "minus_one_day c = Inr c'" "lookback_loop n c' = Inr (Some r)"
      by (cases "minus_one_day c") simp_all
    from minus_one_day_valid [OF Suc.prems(1) c'(1)] c'(2) show ?thesis by (rule Suc.IH)
  qed
qed

lemma get_previous_trading_day_valid:
  assumes "valid_date d" "get_previous_trading_day d = Inr r"
  shows "valid_date r"
proof -
  from assms(2) obtain c where c: "minus_one_day d = Inr c"
    by (cases "minus_one_day d") (simp_all add: get_previous_trading_day_def)
  from assms(1) c have vc: "valid_date c" by (rule minus_one_day_valid)
  from assms(2) c obtain found where f: "lookback_loop 10 c = Inr found"
    by (cases "lookback_loop 10 c") (simp_all add: get_previous_trading_day_def)
  show ?thesis
  proof (cases found)
    case None
    with assms(2) c f have "r = c" by (simp add: get_previous_trading_day_def)
    with vc show ?thesis by simp
  next
    case (Some x)
    with assms(2) c f have "r = x" by (simp add: get_previous_trading_day_def)
    with lookback_loop_valid [OF vc] f Some show ?thesis by simp
  qed
qed

lemma calculate_fetch_day_steps:
  assumes "strptime s = Inr d"
  shows "calculate_fetch_day s =
     (case get_previous_trading_day d of
        Inl e \<Rightarrow> Inl e
      | Inr d1 \<Rightarrow>
          (case get_previous_trading_day d1 of Inl e \<Rightarrow> Inl e | Inr d2 \<Rightarrow> Inr (strftime d2)))"
  using assms by (simp add: calculate_fetch_day_def fetch_loop_two split: sum.splits)


lemma first_day_trading: "is_trading_day \<lparr>year = 1, month = 1, day = 1\<rparr>"
  by (simp add: cal_defs)

lemma second_day_trading: "is_trading_day \<lparr>year = 1, month = 1, day = 2\<rparr>"
  by (simp add: cal_defs)

lemma minus_one_day_total:
  assumes "valid_date d" "d \<noteq> \<lparr>year = 1, month = 1, day = 1\<rparr>"
  shows "\<exists>c. minus_one_day d = Inr c"
proof (cases "day d > 1 \<or> month d > 1 \<or> year d > 1")
  case True
  then show ?thesis by (auto simp: minus_one_day_def)
next
  case False
  with assms(1) have "year d = 1" "month d = 1" "day d = 1"
    by (auto simp: valid_date_def)
  then have "d = \<lparr>year = 1, month = 1, day = 1\<rparr>" by (cases d) simp
  with assms(2) show ?thesis by simp
qed

lemma minus_one_day_first:
  assumes "valid_date c" "minus_one_day c = Inr \<lparr>year = 1, month = 1, day = 1\<rparr>"
  shows "c = \<lparr>year = 1, month = 1, day = 2\<rparr>"
proof -
  consider "day c > 1" | "\<not> day c > 1" "month c > 1" | "\<not> day c > 1" "\<not> month c > 1" "year c > 1"
    | "\<not> day c > 1" "\<not> month c > 1" "\<not> year c > 1" by blast
  then show ?thesis
  proof cases
    case 1
    with assms(2) have "c\<lparr>day := day c - 1\<rparr> = \<lparr>year = 1, month = 1, day = 1\<rparr>"
      by (simp add: minus_one_day_def)
    with 1 show ?thesis by (cases c) auto
  next
    case 2
    with assms(2) have "c\<lparr>month := month c - 1, day := days_in_month (year c) (month c - 1)\<rparr>
        = \<lparr>year = 1, month = 1, day = 1\<rparr>"
      by (simp add: minus_one_day_def)
    then have "days_in_month (year c) (month c - 1) = 1" by (cases c) auto
    with days_in_month_bounds(1) [of "year c" "month c - 1"] show ?thesis by simp
  next
    case 3
    with assms(2) show ?thesis by (simp add: minus_one_day_def)
  next
    case 4
    with assms(2) show ?thesis by (simp add: minus_one_day_def)
  qed
qed

lemma lookback_loop_total: "valid_date c \<Longrightarrow> \<exists>r. lookback_loop n c = Inr r"
proof (induction n arbitrary: c)
  case 0
  show ?case by simp
next
  case (Suc n)
  show ?case
  proof (cases "is_trading_day c")
    case True
    then show ?thesis by simp
  next
    case False
    with first_day_trading have "c \<noteq> \<lparr>year = 1, month = 1, day = 1\<rparr>" by auto
    with Suc.prems obtain c' where c': "minus_one_day c = Inr c'"
      using minus_one_day_total by blast
    with Suc.prems have "valid_date c'" by (rule minus_one_day_valid)
    from Suc.IH [OF this] False c' show ?thesis by simp
  qed
qed

lemma lookback_loop_first:
  "valid_date c \<Longrightarrow> lookback_loop n c = Inr (Some \<lparr>year = 1, month = 1, day = 1\<rparr>)
     \<Longrightarrow> c = \<lparr>year = 1, month = 1, day = 1\<rparr>"
proof (induction n arbitrary: c)
  case 0
  then show ?case by simp
next
  case (Suc n)
  show ?case
  proof (cases "is_trading_day c")
    case True
    with Suc.prems show ?thesis by simp
  next
    case False
    with Suc.prems obtain c' where c': "minus_one_day c = Inr c'"
      "lookback_loop n c' = Inr (Some \<lparr>year = 1, month = 1, day = 1\<rparr>)"
      by (cases "minus_one_day c") simp_all
    from Suc.prems(1) c'(1) have "valid_date c'" by (rule minus_one_day_valid)
    from Suc.IH [OF this c'(2)] c'(1) have "minus_one_day c = Inr \<lparr>year = 1, month = 1, day = 1\<rparr>"
      by simp
    with Suc.prems(1) have "c = \<lparr>year = 1, month = 1, day = 2\<rparr>" by (rule minus_one_day_first)
    with second_day_trading False show ?thesis by simp
  qed
qed

lemma get_previous_trading_day_total:
  assumes "valid_date d" "d \<noteq> \<lparr>year = 1, month = 1, day = 1\<rparr>"
  shows "\<exists>r. get_previous_trading_day d = Inr r"
proof -
  from assms obtain c where c: "minus_one_day d = Inr c" using minus_one_day_total by blast
  with assms(1) have "valid_date c" by (rule minus_one_day_valid)
  then obtain r where "lookback_loop 10 c = Inr r" using lookback_loop_total by blast
  with c show ?thesis by (cases r) (simp_all add: get_previous_trading_day_def)
qed

lemma get_previous_trading_day_first:
  assumes "valid_date d" "get_previous_trading_day d = Inr \<lparr>year = 1, month = 1, day = 1\<rparr>"
  shows "d = \<lparr>year = 1, month = 1, day = 2\<rparr>"
proof -
  from assms(2) obtain c where c: "minus_one_day d = Inr c"
    by (cases "minus_one_day d") (simp_all add: get_previous_trading_day_def)
  from assms(1) c have vc: "valid_date c" by (rule minus_one_day_valid)
  from assms(2) c obtain found where f: "lookback_loop 10 c = Inr found"
    by (cases "lookback_loop 10 c") (simp_all add: get_previous_trading_day_def)
  have "c = \<lparr>year = 1, month = 1, day = 1\<rparr>"
  proof (cases found)
    case None
    with assms(2) c f show ?thesis by (simp add: get_previous_trading_day_def)
  next
    case (Some x)
    with assms(2) c f have "x = \<lparr>year = 1, month = 1, day = 1\<rparr>"
      by (simp add: get_previous_trading_day_def)
    with lookback_loop_first [OF vc] f Some show ?thesis by simp
  qed
  with assms(1) c show ?thesis using minus_one_day_first by simp
qed

lemma calculate_fetch_day_total:
  assumes "strptime s = Inr d"
    and "d \<noteq> \<lparr>year = 1, month = 1, day = 1\<rparr>" "d \<noteq> \<lparr>year = 1, month = 1, day = 2\<rparr>"
  shows "\<exists>f. calculate_fetch_day s = Inr f"
proof -
  from assms(1) have v: "valid_date d" by (rule strptime_valid)
  with assms(2) obtain d1 where 1: "get_previous_trading_day d = Inr d1"
    using get_previous_trading_day_total by blast
  with v have v1: "valid_date d1" by (rule get_previous_trading_day_valid)
  from v 1 assms(3) have "d1 \<noteq> \<lparr>year = 1, month = 1, day = 1\<rparr>"
    using get_previous_trading_day_first by blast
  with v1 obtain d2 where "get_previous_trading_day d1 = Inr d2"
    using get_previous_trading_day_total by blast
  with 1 assms(1) show ?thesis by (simp add: calculate_fetch_day_steps)
qed

lemma parse_jan30: "strptime ''2026-01-30'' = Inr \<lparr>year = 2026, month = 1, day = 30\<rparr>"
  by (simp add: parse_defs)

lemma fetch_jan30: "calculate_fetch_day ''2026-01-30'' = Inr ''2026-01-28''"
  by (simp add: calculate_fetch_day_def parse_jan30 fetch_loop_two cal_defs)

text \<open>
  Claim C3: for every date string that \<open>strptime\<close> parses with \<open>%Y-%m-%d\<close>,
  \<open>calculate_fetch_day\<close> is \<open>get_previous_trading_day\<close> applied twice in succession to
  the parsed Execute Day, formatted back to a \<open>YYYY-MM-DD\<close> string (an exception of
  either application is the exception of \<open>calculate_fetch_day\<close>); unless the Execute
  Day is one of the first two days of year 1, where \<open>datetime\<close> has no earlier day, both
  applications return.  In particular, with the 2026 holidays,
  \<open>calculate_fetch_day("2026-01-30")\<close> is \<open>"2026-01-28"\<close>.
\<close>

theorem C3_fetch_day_is_two_steps_back:
  assumes "strptime s = Inr d"
  shows "calculate_fetch_day s =
       (case get_previous_trading_day d of
          Inl e \<Rightarrow> Inl e
        | Inr d1 \<Rightarrow>
            (case get_previous_trading_day d1 of Inl e \<Rightarrow> Inl e | Inr d2 \<Rightarrow> Inr (strftime d2)))
     \<and> (d \<noteq> \<lparr>year = 1, month = 1, day = 1\<rparr> \<and> d \<noteq> \<lparr>year = 1, month = 1, day = 2\<rparr>
          \<longrightarrow> (\<exists>f. calculate_fetch_day s = Inr f))
     \<and> calculate_fetch_day ''2026-01-30'' = Inr ''2026-01-28''"
  using calculate_fetch_day_steps [OF assms] calculate_fetch_day_total [OF assms] fetch_jan30
  by blast

theorem C3_fetch_day_is_two_steps_back_witness:
  "strptime ''2026-02-02'' = Inr \<lparr>year = 2026, month = 2, day = 2\<rparr>
   \<and> get_previous_trading_day \<lparr>year = 2026, month = 2, day = 2\<rparr>
        = Inr \<lparr>year = 2026, month = 1, day = 30\<rparr>
   \<and> get_previous_trading_day \<lparr>year = 2026, month = 1, day = 30\<rparr>
        = Inr \<lparr>year = 2026, month = 1, day = 29\<rparr>
   \<and> calculate_fetch_day ''2026-02-02'' = Inr ''2026-01-29''"
proof -
  have p: "strptime ''2026-02-02'' = Inr \<lparr>year = 2026, month = 2, day = 2\<rparr>"
    by (simp add: parse_defs)
  have g1: "get_previous_trading_day \<lparr>year = 2026, month = 2, day = 2\<rparr>
        = Inr \<lparr>year = 2026, month = 1, day = 30\<rparr>"
    by (simp add: cal_defs upt_conv_Cons)
  have g2: "get_previous_trading_day \<lparr>year = 2026, month = 1, day = 30\<rparr>
        = Inr \<lparr>year = 2026, month = 1, day = 29\<rparr>"
    by (simp add: cal_defs)
  have f: "strftime \<lparr>year = 2026, month = 1, day = 29\<rparr> = ''2026-01-29''"
    by (simp add: strftime_def digit_char_def)
  from C3_fetch_day_is_two_steps_back [OF p]
  have "calculate_fetch_day ''2026-02-02'' =
       (case get_previous_trading_day \<lparr>year = 2026, month = 2, day = 2\<rparr> of
          Inl e \<Rightarrow> Inl e
        | Inr d1 \<Rightarrow>
            (case get_previous_trading_day d1 of Inl e \<Rightarrow> Inl e | Inr d2 \<Rightarrow> Inr (strftime d2)))"
    by blast
  then have "calculate_fetch_day ''2026-02-02'' = Inr ''2026-01-29''"
    by (simp only: g1 g2 f sum.case)
  with p g1 g2 show ?thesis by blast
qed



end
